theory Spec2Isabelle
  imports Complex_Main "HOL-Library.Word" "HOL-Library.Char_ord" "HOL-Library.List_Lexorder"
begin

section \<open>Values of the program: exceptions, columns, data frames\<close>

text \<open>
  The program \<^verbatim>\<open>hw5.py\<close> is a class \<^verbatim>\<open>QuestionnaireAnalysis\<close> whose
  methods are short pipelines of pandas and numpy calls over \<^verbatim>\<open>self.data\<close>.
  Each library call the methods make is a function below, and each method is the
  composition of these functions in the order of its source lines.

  \<^item> A Python exception is a value of \<open>py_error\<close>; a computation that may raise has
    type \<open>py_error + 'a\<close>, with \<open>Inl\<close> the exception.
  \<^item> A float64 cell is an exact rational or NaN (\<open>None\<close>), and arithmetic on cells
    is exact: float rounding is not modelled. The program rounds only where it takes a
    mean; what that means for the results is said at \<open>nanmean\<close>.
  \<^item> A column has a dtype: float64, object holding Python strings, or the nullable
    \<^verbatim>\<open>UInt8\<close> of the score. A JSON null in a text column is not represented.
  \<^item> A data frame is its row labels (the index) and its named columns, in order.
\<close>

datatype py_error =
    KeyError | IndexError | ValueError | TypeError | AttributeError | FileNotFoundError

datatype column =
    FloatCol "rat option list"
  | StrCol "string list"
  | UInt8Col "8 word option list"

record frame =
  index :: "nat list"
  columns :: "(string \<times> column) list"

fun col_len :: "column \<Rightarrow> nat" where
  "col_len (FloatCol xs) = length xs"
| "col_len (StrCol xs) = length xs"
| "col_len (UInt8Col xs) = length xs"

text \<open>The shape invariant of a data frame: every column is as long as the index.\<close>

definition wf_frame :: "frame \<Rightarrow> bool" where
  "wf_frame df = list_all (\<lambda>nc. col_len (snd nc) = length (index df)) (columns df)"

text \<open>\<^verbatim>\<open>df[name]\<close>: the column of that label, or \<^verbatim>\<open>KeyError\<close>.\<close>

definition getitem :: "frame \<Rightarrow> string \<Rightarrow> py_error + column" where
  "getitem df name = (case map_of (columns df) name of None \<Rightarrow> Inl KeyError | Some c \<Rightarrow> Inr c)"

text \<open>Position of the first occurrence of a label in a list of labels.\<close>

fun pos_of :: "'a list \<Rightarrow> 'a \<Rightarrow> nat option" where
  "pos_of [] a = None"
| "pos_of (x # xs) a = (if x = a then Some 0 else map_option Suc (pos_of xs a))"

text \<open>Boolean-mask selection \<^verbatim>\<open>xs[mask]\<close> on a sequence, a column and a frame.\<close>

definition mask_list :: "'a list \<Rightarrow> bool list \<Rightarrow> 'a list" where
  "mask_list xs m = map fst (filter snd (zip xs m))"

fun mask_col :: "column \<Rightarrow> bool list \<Rightarrow> column" where
  "mask_col (FloatCol xs) m = FloatCol (mask_list xs m)"
| "mask_col (StrCol xs) m = StrCol (mask_list xs m)"
| "mask_col (UInt8Col xs) m = UInt8Col (mask_list xs m)"

definition mask_frame :: "frame \<Rightarrow> bool list \<Rightarrow> frame" where
  "mask_frame df m =
     \<lparr>index = mask_list (index df) m,
      columns = map (\<lambda>nc. (fst nc, mask_col (snd nc) m)) (columns df)\<rparr>"

text \<open>\<^verbatim>\<open>df.reset_index(drop=True)\<close>: the labels become \<open>0, 1, ...\<close>.\<close>

definition reset_index :: "frame \<Rightarrow> frame" where
  "reset_index df = df\<lparr>index := [0..<length (index df)]\<rparr>"

section \<open>Python strings\<close>

text \<open>\<^verbatim>\<open>s.find(c)\<close> and \<^verbatim>\<open>s.rfind(c)\<close> for a one-character pattern: the index of
  the first (last) occurrence, or \<open>-1\<close>.\<close>

fun str_find :: "string \<Rightarrow> char \<Rightarrow> int" where
  "str_find [] c = - 1"
| "str_find (x # xs) c =
     (if x = c then 0 else (let r = str_find xs c in if r < 0 then - 1 else r + 1))"

definition str_rfind :: "string \<Rightarrow> char \<Rightarrow> int" where
  "str_rfind s c = (let r = str_find (rev s) c in if r < 0 then - 1 else int (length s) - 1 - r)"

text \<open>\<^verbatim>\<open>s[i]\<close>: a negative index counts from the end; out of range raises
  \<^verbatim>\<open>IndexError\<close>.\<close>

definition str_getitem :: "string \<Rightarrow> int \<Rightarrow> py_error + char" where
  "str_getitem s i =
     (if 0 \<le> i \<and> i < int (length s) then Inr (s ! nat i)
      else if i < 0 \<and> - int (length s) \<le> i then Inr (s ! nat (int (length s) + i))
      else Inl IndexError)"

section \<open>The e-mail filter\<close>

text \<open>
  \<^verbatim>\<open>
  cond3 = []
  for email, index in zip(self.data['email'], find_first_at):
      cond3.append(email[index+1] != '.')
  \<close>
  The loop reads one character of every address, valid or not; the first read out of
  range ends the method with \<^verbatim>\<open>IndexError\<close>.
\<close>

fun cond3_loop :: "(string \<times> int) list \<Rightarrow> py_error + bool list" where
  "cond3_loop [] = Inr []"
| "cond3_loop ((email, i) # rest) =
     (case str_getitem email (i + 1) of
        Inl e \<Rightarrow> Inl e
      | Inr ch \<Rightarrow>
          (case cond3_loop rest of
             Inl e \<Rightarrow> Inl e
           | Inr bs \<Rightarrow> Inr ((ch \<noteq> CHR ''.'') # bs)))"

text \<open>Element-wise comparison and conjunction of two series of one length, and
  comparison of a series with a number.\<close>

definition series_eq :: "int list \<Rightarrow> int list \<Rightarrow> bool list" where
  "series_eq xs ys = map2 (=) xs ys"

definition series_lt :: "int list \<Rightarrow> int list \<Rightarrow> bool list" where
  "series_lt xs ys = map2 (<) xs ys"

definition series_gt_scalar :: "int list \<Rightarrow> int \<Rightarrow> bool list" where
  "series_gt_scalar xs k = map (\<lambda>x. x > k) xs"

definition series_and :: "bool list \<Rightarrow> bool list \<Rightarrow> bool list" where
  "series_and xs ys = map2 (\<and>) xs ys"

text \<open>The \<^verbatim>\<open>.str\<close> accessor exists only on a column of strings.\<close>

fun str_accessor :: "column \<Rightarrow> py_error + string list" where
  "str_accessor (StrCol xs) = Inr xs"
| "str_accessor (FloatCol xs) = Inl AttributeError"
| "str_accessor (UInt8Col xs) = Inl AttributeError"

definition remove_rows_without_mail :: "frame \<Rightarrow> py_error + frame" where
  "remove_rows_without_mail df =
     (case getitem df ''email'' of
        Inl e \<Rightarrow> Inl e
      | Inr c \<Rightarrow>
          (case str_accessor c of
             Inl e \<Rightarrow> Inl e
           | Inr emails \<Rightarrow>
               (let emails_length = map (\<lambda>s. int (length s)) emails;
                    find_first_dot = map (\<lambda>s. str_find s CHR ''.'') emails;
                    find_last_dot = map (\<lambda>s. str_rfind s CHR ''.'') emails;
                    find_first_at = map (\<lambda>s. str_find s CHR ''@'') emails;
                    find_last_at = map (\<lambda>s. str_rfind s CHR ''@'') emails;
                    cond1 = series_and
                              (series_and (series_eq find_last_at find_first_at)
                                 (series_gt_scalar find_first_at 0))
                              (series_lt find_first_at emails_length);
                    cond2 = series_and (series_gt_scalar find_first_dot 0)
                              (series_lt find_last_dot emails_length)
                in case cond3_loop (zip emails find_first_at) of
                     Inl e \<Rightarrow> Inl e
                   | Inr cond3 \<Rightarrow>
                       (let valid_email = series_and (series_and cond1 cond2) cond3;
                            df' = mask_frame df valid_email
                        in Inr (reset_index df')))))"

section \<open>Numeric columns\<close>

text \<open>
  \<^verbatim>\<open>df.loc[:, a:b]\<close>: the columns from label \<open>a\<close> to label \<open>b\<close>, both ends
  included, in the frame's column order. Only the two end labels are looked up. An end
  label that is a column gives its position. An end label that is no column is placed by
  binary search when the column labels are in ascending or in descending order, and
  raises \<^verbatim>\<open>KeyError\<close> otherwise. Labels compare as Python strings do.
\<close>

definition searchsorted :: "string list \<Rightarrow> string \<Rightarrow> bool \<Rightarrow> nat" where
  "searchsorted labels x left =
     (if left then length (filter (\<lambda>l. l < x) labels) else length (filter (\<lambda>l. l \<le> x) labels))"

definition get_slice_bound :: "string list \<Rightarrow> string \<Rightarrow> bool \<Rightarrow> py_error + nat" where
  "get_slice_bound labels label left =
     (case pos_of labels label of
        Some i \<Rightarrow> Inr (if left then i else Suc i)
      | None \<Rightarrow>
          if sorted labels then Inr (searchsorted labels label left)
          else if sorted (rev labels)
            then Inr (length labels - searchsorted (rev labels) label (\<not> left))
          else Inl KeyError)"

definition loc_cols :: "frame \<Rightarrow> string \<Rightarrow> string \<Rightarrow> py_error + frame" where
  "loc_cols df a b =
     (case get_slice_bound (map fst (columns df)) a True of
        Inl e \<Rightarrow> Inl e
      | Inr start \<Rightarrow>
          (case get_slice_bound (map fst (columns df)) b False of
             Inl e \<Rightarrow> Inl e
           | Inr stop \<Rightarrow> Inr (df\<lparr>columns := take (stop - start) (drop start (columns df))\<rparr>)))"

text \<open>The numeric view of a column for a reduction. A column of strings has none:
  pandas refuses to average it.\<close>

fun col_floats :: "column \<Rightarrow> py_error + rat option list" where
  "col_floats (FloatCol xs) = Inr xs"
| "col_floats (UInt8Col xs) = Inr (map (map_option (\<lambda>w. of_nat (unat w))) xs)"
| "col_floats (StrCol xs) = Inl TypeError"

fun col_isna :: "column \<Rightarrow> bool list" where
  "col_isna (FloatCol xs) = map (\<lambda>x. x = None) xs"
| "col_isna (UInt8Col xs) = map (\<lambda>x. x = None) xs"
| "col_isna (StrCol xs) = map (\<lambda>x. False) xs"

fun sequence_err :: "('e + 'a) list \<Rightarrow> 'e + 'a list" where
  "sequence_err [] = Inr []"
| "sequence_err (x # xs) =
     (case x of
        Inl e \<Rightarrow> Inl e
      | Inr v \<Rightarrow> (case sequence_err xs of Inl e \<Rightarrow> Inl e | Inr vs \<Rightarrow> Inr (v # vs)))"

fun present :: "'a option list \<Rightarrow> 'a list" where
  "present [] = []"
| "present (None # xs) = present xs"
| "present (Some x # xs) = x # present xs"

text \<open>
  The mean of one row with NaN skipped; NaN when nothing is present. The program takes
  this mean in float64 (a sum of at most five cells, divided by their number), so its
  value can differ from the exact mean by rounding, and where the exact mean lies within
  that rounding of a whole number the floor can differ too. On cells that are whole
  numbers of magnitude at most \<open>2 ^ 31\<close> the float64 sum is exact and the rounded
  quotient has the floor of the exact one; the theorem about the score assumes such
  cells (\<open>whole_grades\<close> below).
\<close>

definition nanmean :: "rat option list \<Rightarrow> rat option" where
  "nanmean cells =
     (if present cells = [] then None
      else Some (sum_list (present cells) / of_nat (length (present cells))))"

text \<open>\<^verbatim>\<open>df.mean(1)\<close> and \<^verbatim>\<open>df.isna().sum(1)\<close>: one value per row.\<close>

definition mean1 :: "frame \<Rightarrow> py_error + rat option list" where
  "mean1 df =
     (case sequence_err (map (\<lambda>nc. col_floats (snd nc)) (columns df)) of
        Inl e \<Rightarrow> Inl e
      | Inr cols \<Rightarrow> Inr (map (\<lambda>p. nanmean (map (\<lambda>c. c ! p) cols)) [0..<length (index df)]))"

definition isna_sum1 :: "frame \<Rightarrow> nat list" where
  "isna_sum1 df =
     map (\<lambda>p. length (filter (\<lambda>nc. col_isna (snd nc) ! p) (columns df))) [0..<length (index df)]"

section \<open>Age histogram\<close>

definition np_linspace :: "rat \<Rightarrow> rat \<Rightarrow> nat \<Rightarrow> rat list" where
  "np_linspace a b n = map (\<lambda>i. a + of_nat i * ((b - a) / of_nat (n - 1))) [0..<n]"

text \<open>\<^verbatim>\<open>np.histogram\<close> with explicit edges: bin \<open>i\<close> is half-open, the last bin is
  closed; NaN and values outside the edges fall in no bin.\<close>

definition in_bin :: "rat list \<Rightarrow> nat \<Rightarrow> rat option \<Rightarrow> bool" where
  "in_bin bins i x =
     (case x of
        None \<Rightarrow> False
      | Some v \<Rightarrow>
          bins ! i \<le> v \<and> (if Suc (Suc i) = length bins then v \<le> bins ! Suc i else v < bins ! Suc i))"

definition np_histogram :: "rat option list \<Rightarrow> rat list \<Rightarrow> nat list" where
  "np_histogram a bins = map (\<lambda>i. length (filter (in_bin bins i) a)) [0..<length bins - 1]"

text \<open>The values \<^verbatim>\<open>plt.hist\<close> counts. On a column of strings matplotlib
  switches to categorical units: each string counts as the number of distinct strings
  seen before its first occurrence.\<close>

definition first_seen :: "string list \<Rightarrow> string list" where
  "first_seen xs = rev (remdups (rev xs))"

definition category_code :: "string list \<Rightarrow> string \<Rightarrow> rat option" where
  "category_code xs s = map_option of_nat (pos_of (first_seen xs) s)"

fun hist_values :: "column \<Rightarrow> rat option list" where
  "hist_values (FloatCol xs) = xs"
| "hist_values (UInt8Col xs) = map (map_option (\<lambda>w. of_nat (unat w))) xs"
| "hist_values (StrCol xs) = map (category_code xs) xs"

text \<open>The method also draws the histogram on a new figure; the drawing does not
  touch the table and is left out.\<close>

definition show_age_distrib :: "frame \<Rightarrow> py_error + nat list \<times> rat list" where
  "show_age_distrib df =
     (case getitem df ''age'' of
        Inl e \<Rightarrow> Inl e
      | Inr c \<Rightarrow>
          (let ages = hist_values c;
               bins = np_linspace 0 100 11
           in Inr (np_histogram ages bins, bins)))"

section \<open>Filling missing grades\<close>

text \<open>\<^verbatim>\<open>np.broadcast_to(v, (r, c))\<close> for a vector: it becomes each of the \<open>r\<close>
  rows when it has \<open>c\<close> entries, a single entry is repeated, anything else raises
  \<^verbatim>\<open>ValueError\<close>.\<close>

definition np_broadcast_to :: "'a list \<Rightarrow> nat \<times> nat \<Rightarrow> py_error + 'a list list" where
  "np_broadcast_to v shape =
     (if length v = snd shape then Inr (replicate (fst shape) v)
      else if length v = 1 then Inr (replicate (fst shape) (replicate (snd shape) (hd v)))
      else Inl ValueError)"

definition np_transpose :: "'a list list \<Rightarrow> 'a list list" where
  "np_transpose m =
     (case m of [] \<Rightarrow> [] | r # rs \<Rightarrow> map (\<lambda>j. map (\<lambda>row. row ! j) m) [0..<length r])"

text \<open>\<^verbatim>\<open>pd.DataFrame(matrix, columns=names)\<close>: a frame of float columns with the
  labels \<open>0, 1, ...\<close>; the number of names must be the width of the matrix.\<close>

definition DataFrame :: "rat option list list \<Rightarrow> string list \<Rightarrow> py_error + frame" where
  "DataFrame m names =
     (if list_all (\<lambda>row. length row = length names) m
      then Inr \<lparr>index = [0..<length m],
                columns = map (\<lambda>j. (names ! j, FloatCol (map (\<lambda>row. row ! j) m))) [0..<length names]\<rparr>
      else Inl ValueError)"

text \<open>\<^verbatim>\<open>df.fillna(value=other)\<close> with a frame as value: a NaN cell takes the cell
  of \<open>other\<close> with the same column name and the same row label, if there is one; every
  other cell stays. The result is a new frame.\<close>

definition fillna_cell :: "frame \<Rightarrow> string \<Rightarrow> nat \<Rightarrow> rat option \<Rightarrow> rat option" where
  "fillna_cell other name label x =
     (case x of
        Some v \<Rightarrow> Some v
      | None \<Rightarrow>
          (case map_of (columns other) name of
             Some (FloatCol vs) \<Rightarrow>
               (case pos_of (index other) label of Some p \<Rightarrow> vs ! p | None \<Rightarrow> None)
           | _ \<Rightarrow> None))"

fun fillna_col :: "frame \<Rightarrow> nat list \<Rightarrow> string \<Rightarrow> column \<Rightarrow> column" where
  "fillna_col other labels name (FloatCol xs) = FloatCol (map2 (fillna_cell other name) labels xs)"
| "fillna_col other labels name (StrCol xs) = StrCol xs"
| "fillna_col other labels name (UInt8Col xs) = UInt8Col xs"

definition fillna :: "frame \<Rightarrow> frame \<Rightarrow> frame" where
  "fillna df other =
     df\<lparr>columns := map (\<lambda>nc. (fst nc, fillna_col other (index df) (fst nc) (snd nc))) (columns df)\<rparr>"

definition fill_na_with_mean :: "frame \<Rightarrow> py_error + frame \<times> nat list" where
  "fill_na_with_mean df =
     (case loc_cols df ''q1'' ''q5'' of
        Inl e \<Rightarrow> Inl e
      | Inr grades \<Rightarrow>
          (case mean1 grades of
             Inl e \<Rightarrow> Inl e
           | Inr all_means_vector \<Rightarrow>
               (case np_broadcast_to all_means_vector (5, 100) of
                  Inl e \<Rightarrow> Inl e
                | Inr b \<Rightarrow>
                    (let all_means_matrix = np_transpose b
                     in case DataFrame all_means_matrix [''q1'', ''q2'', ''q3'', ''q4'', ''q5''] of
                          Inl e \<Rightarrow> Inl e
                        | Inr all_means_df \<Rightarrow>
                            (let df' = fillna df all_means_df;
                                 arr_bool = map (\<lambda>k. k > 0) (isna_sum1 grades);
                                 arr = mask_list [0..<length (index df)] arr_bool
                             in Inr (df', arr))))))"

section \<open>Scores\<close>

text \<open>\<^verbatim>\<open>.astype('UInt8')\<close> on floats that hold integers: NaN becomes the missing
  value of the nullable type; a value that does not fit eight unsigned bits cannot be
  cast safely and raises \<^verbatim>\<open>TypeError\<close>.\<close>

definition astype_UInt8 :: "int option list \<Rightarrow> py_error + 8 word option list" where
  "astype_UInt8 xs =
     (if list_all (\<lambda>x. case x of None \<Rightarrow> True | Some v \<Rightarrow> 0 \<le> v \<and> v \<le> 255) xs
      then Inr (map (map_option word_of_int) xs)
      else Inl TypeError)"

text \<open>\<^verbatim>\<open>df[name] = col\<close>: replaces the column of that label, or appends a new one.\<close>

definition setitem :: "frame \<Rightarrow> string \<Rightarrow> column \<Rightarrow> frame" where
  "setitem df name c =
     df\<lparr>columns :=
          (if name \<in> set (map fst (columns df))
           then map (\<lambda>nc. if fst nc = name then (name, c) else nc) (columns df)
           else columns df @ [(name, c)])\<rparr>"

text \<open>Lines 113 to 117 of the method: the score column.\<close>

definition score_column :: "frame \<Rightarrow> int \<Rightarrow> py_error + 8 word option list" where
  "score_column df maximal_nans_per_sub =
     (case loc_cols df ''q1'' ''q5'' of
        Inl e \<Rightarrow> Inl e
      | Inr grades \<Rightarrow>
          (let sum_nan = isna_sum1 grades;
               mask_nan = map (\<lambda>k. int k > maximal_nans_per_sub) sum_nan
           in case mean1 grades of
                Inl e \<Rightarrow> Inl e
              | Inr score \<Rightarrow>
                  (case astype_UInt8 (map (map_option floor) score) of
                     Inl e \<Rightarrow> Inl e
                   | Inr score8 \<Rightarrow> Inr (map2 (\<lambda>s b. if b then None else s) score8 mask_nan))))"

text \<open>Lines 118 to 120: the score goes into a copy of the table. As a value the copy
  is the frame itself; the object layer below keeps the two apart.\<close>

definition score_subjects :: "frame \<Rightarrow> int \<Rightarrow> py_error + frame" where
  "score_subjects df maximal_nans_per_sub =
     (case score_column df maximal_nans_per_sub of
        Inl e \<Rightarrow> Inl e
      | Inr score \<Rightarrow> Inr (setitem df ''score'' (UInt8Col score)))"

section \<open>The object and its table\<close>

text \<open>
  The table is an object that \<^verbatim>\<open>self.data\<close> refers to. Objects live in a heap of
  frames; a method reads the frame at \<^verbatim>\<open>self.data\<close> and allocates the frame it
  returns. Selection by a mask, \<^verbatim>\<open>fillna\<close> without \<^verbatim>\<open>inplace\<close> and
  \<^verbatim>\<open>copy\<close> each build a new frame that owns its columns. \<^verbatim>\<open>pd.read_json\<close>
  is a parameter: it decides from the file system whether a path can be read.
\<close>

datatype path = Path string

datatype fname = PathValue path | StrValue string

record heap =
  frames :: "nat \<Rightarrow> frame option"
  next_addr :: nat

definition alloc :: "frame \<Rightarrow> heap \<Rightarrow> nat \<times> heap" where
  "alloc df h = (next_addr h, \<lparr>frames = (frames h)(next_addr h \<mapsto> df), next_addr = Suc (next_addr h)\<rparr>)"

definition deref :: "heap \<Rightarrow> nat \<Rightarrow> frame" where
  "deref h a = the (frames h a)"

record QuestionnaireAnalysis =
  data_fname :: path
  data :: nat

text \<open>
  \<^verbatim>\<open>
  def __init__(self, data_fname):
      if type(data_fname) != pathlib.Path:
          data_fname = pathlib.Path(data_fname)
      self.data_fname = data_fname
      self.read_data()
  def read_data(self):
      self.data = pd.read_json(self.data_fname)
  \<close>
\<close>

definition read_data ::
  "(path \<Rightarrow> py_error + frame) \<Rightarrow> path \<Rightarrow> heap \<Rightarrow> (py_error + QuestionnaireAnalysis) \<times> heap" where
  "read_data read_json p h =
     (case read_json p of
        Inl e \<Rightarrow> (Inl e, h)
      | Inr df \<Rightarrow> (let (a, h') = alloc df h in (Inr \<lparr>data_fname = p, data = a\<rparr>, h')))"

definition as_path :: "fname \<Rightarrow> path" where
  "as_path fname = (case fname of PathValue p \<Rightarrow> p | StrValue s \<Rightarrow> Path s)"

definition init ::
  "(path \<Rightarrow> py_error + frame) \<Rightarrow> fname \<Rightarrow> heap \<Rightarrow> (py_error + QuestionnaireAnalysis) \<times> heap" where
  "init read_json fname h = read_data read_json (as_path fname) h"

datatype call = ShowAgeDistrib | RemoveRowsWithoutMail | FillNaWithMean | ScoreSubjects int

datatype result =
    Raised py_error
  | Histogram "nat list" "rat list"
  | Table nat
  | TableAndRows nat "nat list"

text \<open>One method call on the object. In \<^verbatim>\<open>score_subjects\<close> the lines
  \<^verbatim>\<open>new_df = self.data.copy()\<close> and \<^verbatim>\<open>new_df["score"] = score\<close> allocate the
  copy and then update the frame at its address in place.\<close>

fun method_call :: "QuestionnaireAnalysis \<Rightarrow> call \<Rightarrow> heap \<Rightarrow> result \<times> heap" where
  "method_call self ShowAgeDistrib h =
     (case show_age_distrib (deref h (data self)) of
        Inl e \<Rightarrow> (Raised e, h)
      | Inr hb \<Rightarrow> (Histogram (fst hb) (snd hb), h))"
| "method_call self RemoveRowsWithoutMail h =
     (case remove_rows_without_mail (deref h (data self)) of
        Inl e \<Rightarrow> (Raised e, h)
      | Inr df \<Rightarrow> (let (a, h') = alloc df h in (Table a, h')))"
| "method_call self FillNaWithMean h =
     (case fill_na_with_mean (deref h (data self)) of
        Inl e \<Rightarrow> (Raised e, h)
      | Inr da \<Rightarrow> (let (a, h') = alloc (fst da) h in (TableAndRows a (snd da), h')))"
| "method_call self (ScoreSubjects maximal_nans_per_sub) h =
     (case score_column (deref h (data self)) maximal_nans_per_sub of
        Inl e \<Rightarrow> (Raised e, h)
      | Inr score \<Rightarrow>
          (let (new_df, h1) = alloc (deref h (data self)) h;
               h2 = h1\<lparr>frames := (frames h1)(new_df \<mapsto> setitem (deref h1 new_df) ''score'' (UInt8Col score))\<rparr>
           in (Table new_df, h2)))"

text \<open>Any number of calls in any order; a caller may go on after an exception.\<close>

fun run_calls :: "QuestionnaireAnalysis \<Rightarrow> call list \<Rightarrow> heap \<Rightarrow> heap" where
  "run_calls self [] h = h"
| "run_calls self (c # cs) h = run_calls self cs (snd (method_call self c h))"

text \<open>Addresses from \<open>next_addr\<close> on are free.\<close>

definition heap_ok :: "heap \<Rightarrow> bool" where
  "heap_ok h = (\<forall>a. next_addr h \<le> a \<longrightarrow> frames h a = None)"

text \<open>The address of the table a call returns, if it returns one.\<close>

fun result_table :: "result \<Rightarrow> nat option" where
  "result_table (Table a) = Some a"
| "result_table (TableAndRows a rows) = Some a"
| "result_table (Histogram hist bins) = None"
| "result_table (Raised e) = None"

section \<open>Example tables\<close>

definition email_table :: "string list \<Rightarrow> frame" where
  "email_table es = \<lparr>index = [0..<length es], columns = [(''email'', StrCol es)]\<rparr>"

definition age_table :: "rat option list \<Rightarrow> frame" where
  "age_table ages = \<lparr>index = [0..<length ages], columns = [(''age'', FloatCol ages)]\<rparr>"

definition grade_table ::
  "rat option list \<Rightarrow> rat option list \<Rightarrow> rat option list \<Rightarrow> rat option list \<Rightarrow> rat option list \<Rightarrow> frame" where
  "grade_table c1 c2 c3 c4 c5 =
     \<lparr>index = [0..<length c1],
      columns = [(''q1'', FloatCol c1), (''q2'', FloatCol c2), (''q3'', FloatCol c3),
                 (''q4'', FloatCol c4), (''q5'', FloatCol c5)]\<rparr>"

text \<open>One subject with the grades of the specification's example row.\<close>

definition sample_table :: frame where
  "sample_table =
     \<lparr>index = [0],
      columns = [(''age'', FloatCol [Some 30]), (''email'', StrCol [''a.b@c.com'']),
                 (''q1'', FloatCol [Some 2]), (''q2'', FloatCol [Some 4]), (''q3'', FloatCol [None]),
                 (''q4'', FloatCol [Some 6]), (''q5'', FloatCol [Some 8])]\<rparr>"

definition empty_heap :: heap where
  "empty_heap = \<lparr>frames = (\<lambda>a. None), next_addr = 0\<rparr>"

definition table_without_q3 :: frame where
  "table_without_q3 =
     \<lparr>index = [0],
      columns = [(''age'', FloatCol [Some 30]), (''email'', StrCol [''a.b@c.com'']),
                 (''q1'', FloatCol [Some 3]), (''q2'', FloatCol [Some 3]),
                 (''q4'', FloatCol [Some 3]), (''q5'', FloatCol [None])]\<rparr>"

text \<open>A table without \<open>q1\<close> whose column labels are in ascending order.\<close>

definition table_without_q1 :: frame where
  "table_without_q1 =
     \<lparr>index = [0],
      columns = [(''age'', FloatCol [Some 30]), (''email'', StrCol [''a.b@c.com'']),
                 (''q2'', FloatCol [Some 3]), (''q3'', FloatCol [Some 3]),
                 (''q4'', FloatCol [Some 3]), (''q5'', FloatCol [None])]\<rparr>"

definition table_without_q5 :: frame where
  "table_without_q5 =
     \<lparr>index = [0],
      columns = [(''email'', StrCol [''a.b@c.com'']), (''age'', FloatCol [Some 30]),
                 (''q1'', FloatCol [Some 3]), (''q2'', FloatCol [Some 3]),
                 (''q3'', FloatCol [Some 3]), (''q4'', FloatCol [None])]\<rparr>"

text \<open>\<^verbatim>\<open>pd.read_json\<close> where no file exists.\<close>

definition missing_file_reader :: "path \<Rightarrow> py_error + frame" where
  "missing_file_reader p = Inl FileNotFoundError"

section \<open>The properties in the specification's words\<close>

text \<open>The rule for a valid address as the specification writes it: exactly one
  \<open>@\<close>, after position 0 and before the last character; at least one dot, the first
  after position 0 and the last before the final index; the character after the
  \<open>@\<close> is no dot.\<close>

definition spec_valid_email :: "string \<Rightarrow> bool" where
  "spec_valid_email s =
     (count_list s CHR ''@'' = 1
      \<and> 0 < str_find s CHR ''@'' \<and> str_find s CHR ''@'' < int (length s) - 1
      \<and> CHR ''.'' \<in> set s
      \<and> 0 < str_find s CHR ''.'' \<and> str_rfind s CHR ''.'' < int (length s) - 1
      \<and> s ! nat (str_find s CHR ''@'' + 1) \<noteq> CHR ''.'')"

text \<open>The conditions \<^verbatim>\<open>cond1\<close> and \<^verbatim>\<open>cond2\<close> of the method for one address,
  and the rule the code applies to an address when its loop raises nothing.\<close>

definition cond1_of :: "string \<Rightarrow> bool" where
  "cond1_of s =
     (str_rfind s CHR ''@'' = str_find s CHR ''@'' \<and> str_find s CHR ''@'' > 0
      \<and> str_find s CHR ''@'' < int (length s))"

definition cond2_of :: "string \<Rightarrow> bool" where
  "cond2_of s = (str_find s CHR ''.'' > 0 \<and> str_rfind s CHR ''.'' < int (length s))"


definition char_after_at_ok :: "string \<Rightarrow> bool" where
  "char_after_at_ok s =
     (case str_getitem s (str_find s CHR ''@'' + 1) of Inl e \<Rightarrow> False | Inr ch \<Rightarrow> ch \<noteq> CHR ''.'')"

definition code_valid_email :: "string \<Rightarrow> bool" where
  "code_valid_email s = (cond1_of s \<and> cond2_of s \<and> char_after_at_ok s)"

text \<open>The read of the loop is out of range: the address is empty, or its only
  \<open>@\<close> is its last character.\<close>

definition at_read_out_of_range :: "string \<Rightarrow> bool" where
  "at_read_out_of_range s =
     (s = [] \<or> (last s = CHR ''@'' \<and> CHR ''@'' \<notin> set (butlast s)))"

text \<open>A table in the shape of the data model: the five grade columns are float
  columns, next to each other and in order.\<close>

definition grade_columns ::
  "frame \<Rightarrow> rat option list \<Rightarrow> rat option list \<Rightarrow> rat option list \<Rightarrow> rat option list
     \<Rightarrow> rat option list \<Rightarrow> bool" where
  "grade_columns df c1 c2 c3 c4 c5 =
     (\<exists>before after.
        columns df = before @ [(''q1'', FloatCol c1), (''q2'', FloatCol c2), (''q3'', FloatCol c3),
                               (''q4'', FloatCol c4), (''q5'', FloatCol c5)] @ after
        \<and> ''q1'' \<notin> set (map fst before) \<and> ''q5'' \<notin> set (map fst before))"

text \<open>The grades of row \<open>p\<close>, the number of missing ones, and the score the
  specification gives the row.\<close>

definition grades_of_row ::
  "rat option list \<Rightarrow> rat option list \<Rightarrow> rat option list \<Rightarrow> rat option list
     \<Rightarrow> rat option list \<Rightarrow> nat \<Rightarrow> rat option list" where
  "grades_of_row c1 c2 c3 c4 c5 p = [c1 ! p, c2 ! p, c3 ! p, c4 ! p, c5 ! p]"

definition missing_count :: "rat option list \<Rightarrow> nat" where
  "missing_count cells = length (filter (\<lambda>x. x = None) cells)"




definition age_in_bins :: "rat option \<Rightarrow> bool" where
  "age_in_bins x = (case x of None \<Rightarrow> False | Some v \<Rightarrow> 0 \<le> v \<and> v \<le> 100)"

text \<open>A grade column after imputation, as the specification describes it, with the
  exact mean.\<close>

definition imputed :: "rat option list \<Rightarrow> rat option list \<Rightarrow> rat option list \<Rightarrow> rat option list
     \<Rightarrow> rat option list \<Rightarrow> rat option list \<Rightarrow> rat option list" where
  "imputed c1 c2 c3 c4 c5 c =
     map (\<lambda>p. case c ! p of Some v \<Rightarrow> Some v | None \<Rightarrow> nanmean (grades_of_row c1 c2 c3 c4 c5 p)) [0..<length c]"

text \<open>The label lookup of the slice \<open>q1:q5\<close> fails: an end label is no column
  and the labels are neither in ascending nor in descending order.\<close>

definition slice_end_missing :: "string list \<Rightarrow> bool" where
  "slice_end_missing labels =
     ((''q1'' \<notin> set labels \<or> ''q5'' \<notin> set labels) \<and> \<not> sorted labels \<and> \<not> sorted (rev labels))"


section \<open>Facts about strings, masks and the filter loop\<close>

lemma map2_same: "map2 f (map g xs) (map h xs) = map (\<lambda>x. f (g x) (h x)) xs"
  by (induction xs) auto

text \<open>The method with its element-wise conditions read address by address.\<close>

lemma remove_rows_unfold:
  "remove_rows_without_mail df =
     (case getitem df ''email'' of
        Inl e \<Rightarrow> Inl e
      | Inr c \<Rightarrow>
          (case str_accessor c of
             Inl e \<Rightarrow> Inl e
           | Inr emails \<Rightarrow>
               (case cond3_loop (zip emails (map (\<lambda>s. str_find s CHR ''@'') emails)) of
                  Inl e \<Rightarrow> Inl e
                | Inr c3 \<Rightarrow>
                    Inr (reset_index
                          (mask_frame df (map2 (\<and>) (map2 (\<and>) (map cond1_of emails) (map cond2_of emails)) c3))))))"
proof -
  have c1: "series_and
          (series_and (series_eq (map (\<lambda>s. str_rfind s CHR ''@'') emails) (map (\<lambda>s. str_find s CHR ''@'') emails))
             (series_gt_scalar (map (\<lambda>s. str_find s CHR ''@'') emails) 0))
          (series_lt (map (\<lambda>s. str_find s CHR ''@'') emails) (map (\<lambda>s. int (length s)) emails))
        = map cond1_of emails" for emails
    by (simp add: series_and_def series_eq_def series_gt_scalar_def series_lt_def map2_same cond1_of_def)
  have c2: "series_and (series_gt_scalar (map (\<lambda>s. str_find s CHR ''.'') emails) 0)
          (series_lt (map (\<lambda>s. str_rfind s CHR ''.'') emails) (map (\<lambda>s. int (length s)) emails))
        = map cond2_of emails" for emails
    by (simp add: series_and_def series_gt_scalar_def series_lt_def map2_same cond2_of_def)
  show ?thesis
    unfolding remove_rows_without_mail_def Let_def c1 c2
    by (simp add: series_and_def split: sum.splits)
qed

lemma str_find_lt: "str_find s c < int (length s)"
  by (induction s) (auto simp: Let_def)

lemma str_find_ge: "- 1 \<le> str_find s c"
  by (induction s) (auto simp: Let_def)

lemma str_find_neg_iff: "str_find s c < 0 \<longleftrightarrow> c \<notin> set s"
  using str_find_ge [of _ c] by (induction s) (auto simp: Let_def)

lemma str_find_absent: "c \<notin> set s \<Longrightarrow> str_find s c = - 1"
  using str_find_neg_iff [of s c] str_find_ge [of s c] by simp

lemma str_find_append:
  "str_find (xs @ ys) c =
     (if c \<in> set xs then str_find xs c
      else if c \<in> set ys then int (length xs) + str_find ys c else - 1)"
proof (induction xs)
  case Nil
  show ?case by (simp add: str_find_absent)
next
  case (Cons x xs)
  have "0 \<le> str_find ys c" if "c \<in> set ys"
    using that str_find_neg_iff [of ys c] by simp
  with Cons show ?case
    by (auto simp: Let_def str_find_neg_iff)
qed

lemma str_rfind_Cons:
  "str_rfind (x # xs) c =
     (if c \<in> set xs then 1 + str_rfind xs c else if x = c then 0 else - 1)"
  using str_find_lt [of "rev xs" c] str_find_neg_iff [of "rev xs" c]
  by (auto simp: str_rfind_def str_find_append Let_def)

lemma str_rfind_ge: "c \<in> set s \<Longrightarrow> 0 \<le> str_rfind s c"
  using str_find_lt [of "rev s" c] str_find_neg_iff [of "rev s" c]
  by (auto simp: str_rfind_def Let_def)

lemma one_occurrence:
  "count_list s c = 1 \<longleftrightarrow> c \<in> set s \<and> str_rfind s c = str_find s c"
proof (induction s)
  case Nil
  show ?case by simp
next
  case (Cons x xs)
  show ?case
  proof (cases "c \<in> set xs")
    case True
    with Cons str_rfind_ge [OF True] str_find_neg_iff [of xs c] show ?thesis
      by (auto simp: str_rfind_Cons Let_def count_list_0_iff)
  next
    case False
    then have "count_list xs c = 0"
      by (simp add: count_list_0_iff)
    with False show ?thesis
      using str_find_neg_iff [of xs c] by (auto simp: str_rfind_Cons Let_def)
  qed
qed

lemma str_rfind_last:
  assumes "c \<in> set s"
  shows "str_rfind s c < int (length s) - 1 \<longleftrightarrow> last s \<noteq> c"
proof -
  from assms have ne: "s \<noteq> []" by auto
  then obtain y ys where r: "rev s = y # ys"
    by (cases "rev s") auto
  then have l: "last s = y"
    using ne by (metis last_rev list.sel(1) rev_rev_ident hd_rev)
  have in_rev: "c \<in> set (rev s)" using assms by simp
  have ge: "0 \<le> str_find (rev s) c"
    using str_find_neg_iff [of "rev s" c] in_rev by simp
  have "str_find (rev s) c = 0 \<longleftrightarrow> y = c"
    using ge unfolding r by (auto simp: Let_def split: if_splits)
  with ge l show ?thesis
    by (auto simp: str_rfind_def Let_def)
qed

lemma str_find_last_iff:
  "str_find s c + 1 = int (length s) \<longleftrightarrow> s = [] \<or> (last s = c \<and> c \<notin> set (butlast s))"
proof (induction s)
  case Nil
  show ?case by simp
next
  case (Cons x xs)
  show ?case
  proof (cases "xs = []")
    case True
    then show ?thesis by simp
  next
    case False
    with Cons str_find_lt [of xs c] str_find_neg_iff [of xs c] show ?thesis
      by (auto simp: Let_def)
  qed
qed

lemma str_getitem_after_at:
  "str_getitem s (str_find s c + 1) = Inl IndexError \<longleftrightarrow> str_find s c + 1 = int (length s)"
  using str_find_lt [of s c] str_find_ge [of s c] by (auto simp: str_getitem_def Let_def)

lemma str_getitem_error: "str_getitem s i = Inl e \<Longrightarrow> e = IndexError"
  by (auto simp: str_getitem_def Let_def split: if_splits)

lemma mask_list_map: "mask_list xs (map P xs) = filter P xs"
  by (induction xs) (auto simp: mask_list_def)

lemma mask_list_all_True: "length m = length xs \<Longrightarrow> list_all (\<lambda>b. b) m \<Longrightarrow> mask_list xs m = xs"
  by (induction xs m rule: list_induct2') (auto simp: mask_list_def)

lemma length_mask_list: "length xs = length m \<Longrightarrow> length (mask_list xs m) = length (filter (\<lambda>b. b) m)"
  by (induction xs m rule: list_induct2) (auto simp: mask_list_def)

lemma map_of_map_snd: "map_of (map (\<lambda>nc. (fst nc, f (snd nc))) cs) k = map_option f (map_of cs k)"
  by (induction cs) auto

lemma getitem_mask_frame:
  "getitem (reset_index (mask_frame df m)) k =
     (case getitem df k of Inl e \<Rightarrow> Inl e | Inr c \<Rightarrow> Inr (mask_col c m))"
  by (simp add: getitem_def reset_index_def mask_frame_def
        map_of_map_snd [where f = "\<lambda>c. mask_col c m"] split: option.splits)

lemma mask_col_all_True:
  "length m = col_len c \<Longrightarrow> list_all (\<lambda>b. b) m \<Longrightarrow> mask_col c m = c"
  by (cases c) (simp_all add: mask_list_all_True)

lemma col_len_mask_col:
  "col_len c = length m \<Longrightarrow> col_len (mask_col c m) = length (filter (\<lambda>b. b) m)"
  by (cases c) (simp_all add: length_mask_list)

lemma wf_frame_mask:
  assumes "wf_frame df" "length m = length (index df)"
  shows "wf_frame (reset_index (mask_frame df m))"
  using assms
  by (auto simp: wf_frame_def reset_index_def mask_frame_def list_all_iff col_len_mask_col length_mask_list)

lemma mask_frame_all_True:
  assumes "wf_frame df" "length m = length (index df)" "list_all (\<lambda>b. b) m"
  shows "mask_frame df m = df"
proof -
  have "map (\<lambda>nc. (fst nc, mask_col (snd nc) m)) (columns df) = columns df"
    using assms by (intro map_idI) (auto simp: wf_frame_def list_all_iff mask_col_all_True)
  moreover have "mask_list (index df) m = index df"
    using assms by (simp add: mask_list_all_True)
  ultimately show ?thesis by (simp add: mask_frame_def)
qed

lemma getitem_col_len: "wf_frame df \<Longrightarrow> getitem df k = Inr c \<Longrightarrow> col_len c = length (index df)"
  by (auto simp: getitem_def wf_frame_def list_all_iff split: option.splits dest!: map_of_SomeD)

lemma cond3_loop_Inr:
  "cond3_loop (zip es (map f es)) = Inr c3 \<Longrightarrow>
     map2 (\<and>) (map2 (\<and>) (map cond1_of es) (map cond2_of es)) c3 = map (\<lambda>s. cond1_of s \<and> cond2_of s \<and> (case str_getitem s (f s + 1) of Inl e \<Rightarrow> False | Inr ch \<Rightarrow> ch \<noteq> CHR ''.'')) es"
  by (induction es arbitrary: c3) (auto split: sum.splits)

lemma cond3_loop_valid:
  "\<forall>s\<in>set es. (case str_getitem s (f s + 1) of Inl e \<Rightarrow> False | Inr ch \<Rightarrow> ch \<noteq> CHR ''.'') \<Longrightarrow>
     cond3_loop (zip es (map f es)) = Inr (map (\<lambda>s. True) es)"
  by (induction es) (auto split: sum.splits)

lemma cond3_loop_error: "cond3_loop ps = Inl e \<Longrightarrow> e = IndexError"
  by (induction ps arbitrary: e rule: cond3_loop.induct) (auto split: sum.splits dest: str_getitem_error)

lemma cond3_loop_raises_iff:
  "(\<exists>e. cond3_loop (zip es (map f es)) = Inl e) \<longleftrightarrow> (\<exists>s\<in>set es. \<exists>e. str_getitem s (f s + 1) = Inl e)"
  by (induction es) (auto split: sum.splits)

lemma remove_rows_Inr:
  assumes "remove_rows_without_mail df = Inr df'"
  obtains emails where "getitem df ''email'' = Inr (StrCol emails)"
    and "df' = reset_index (mask_frame df (map code_valid_email emails))"
proof -
  from assms obtain c where c: "getitem df ''email'' = Inr c"
    by (auto simp: remove_rows_unfold split: sum.splits)
  with assms obtain emails where e: "c = StrCol emails"
    by (cases c) (auto simp: remove_rows_unfold)
  from assms c e obtain c3 where
    c3: "cond3_loop (zip emails (map (\<lambda>s. str_find s CHR ''@'') emails)) = Inr c3"
    and df': "df' = reset_index (mask_frame df (map2 (\<and>) (map2 (\<and>) (map cond1_of emails) (map cond2_of emails)) c3))"
    by (auto simp: remove_rows_unfold Let_def split: sum.splits)
  have "map2 (\<and>) (map2 (\<and>) (map cond1_of emails) (map cond2_of emails)) c3 = map code_valid_email emails"
    using cond3_loop_Inr [OF c3] by (simp add: code_valid_email_def char_after_at_ok_def)
  with df' c e that show thesis by simp
qed

lemma remove_rows_all_valid:
  assumes "getitem df ''email'' = Inr (StrCol emails)" "\<forall>s\<in>set emails. code_valid_email s"
    "wf_frame df" "index df = [0..<length (index df)]"
  shows "remove_rows_without_mail df = Inr df"
proof -
  let ?f = "\<lambda>s. str_find s CHR ''@''"
  have c3: "cond3_loop (zip emails (map ?f emails)) = Inr (map (\<lambda>s. True) emails)"
    using assms(2) by (intro cond3_loop_valid) (auto simp: code_valid_email_def char_after_at_ok_def)
  have m: "map2 (\<and>) (map2 (\<and>) (map cond1_of emails) (map cond2_of emails)) (map (\<lambda>s. True) emails)
             = map code_valid_email emails"
    using cond3_loop_Inr [OF c3] by (simp add: code_valid_email_def char_after_at_ok_def)
  have len: "length emails = length (index df)"
    using getitem_col_len [OF assms(3) assms(1)] by simp
  have "mask_frame df (map code_valid_email emails) = df"
    using assms(2) len by (intro mask_frame_all_True [OF assms(3)]) (auto simp: list_all_iff)
  moreover have "reset_index df = df"
    using assms(4) by (cases df) (simp add: reset_index_def)
  ultimately show ?thesis
    using assms(1) c3 m by (simp add: remove_rows_unfold Let_def)
qed

section \<open>Properties of the e-mail filter\<close>

text \<open>
  Claim C6. The filter keeps \<open>a.b@c.com\<close> and drops \<open>ab@.com\<close>,
  \<open>a@b@c.com\<close>, \<open>@abc.com\<close> and \<open>abc.com\<close>, one at a time and together.
\<close>

theorem email_examples:
  "remove_rows_without_mail (email_table [''a.b@c.com'']) = Inr (email_table [''a.b@c.com''])
   \<and> remove_rows_without_mail (email_table [''ab@.com'']) = Inr (email_table [])
   \<and> remove_rows_without_mail (email_table [''a@b@c.com'']) = Inr (email_table [])
   \<and> remove_rows_without_mail (email_table [''@abc.com'']) = Inr (email_table [])
   \<and> remove_rows_without_mail (email_table [''abc.com'']) = Inr (email_table [])
   \<and> remove_rows_without_mail (email_table [''a.b@c.com'', ''ab@.com'', ''a@b@c.com'', ''@abc.com'', ''abc.com''])
       = Inr (email_table [''a.b@c.com''])"
  by (simp add: remove_rows_unfold email_table_def getitem_def cond1_of_def cond2_of_def
        str_rfind_def str_getitem_def mask_frame_def mask_list_def reset_index_def)

text \<open>When the loop raises nothing, the rule the code applies is the specification's
  rule without the test that the address does not end in a dot.\<close>

lemma code_rule_and_spec_rule:
  "spec_valid_email s \<longleftrightarrow> code_valid_email s \<and> last s \<noteq> CHR ''.''"
proof -
  let ?a = "str_find s CHR ''@''"
  have after: "char_after_at_ok s \<longleftrightarrow> ?a + 1 < int (length s) \<and> s ! nat (?a + 1) \<noteq> CHR ''.''"
    if "0 < ?a"
    using that by (auto simp: char_after_at_ok_def str_getitem_def)
  have one: "count_list s CHR ''@'' = 1 \<longleftrightarrow> str_rfind s CHR ''@'' = ?a" if "0 < ?a"
    using that one_occurrence [of s "CHR ''@''"] str_find_neg_iff [of s "CHR ''@''"] by auto
  have dot_in: "CHR ''.'' \<in> set s" if "0 < str_find s CHR ''.''"
    using that str_find_neg_iff [of s "CHR ''.''"] by auto
  show ?thesis
  proof (cases "0 < ?a \<and> 0 < str_find s CHR ''.''")
    case True
    then have a: "0 < ?a" and d: "0 < str_find s CHR ''.''" by simp_all
    show ?thesis
      using a d after [OF a] one [OF a] str_rfind_last [OF dot_in [OF d]] str_find_lt [of s "CHR ''@''"]
      by (auto simp: spec_valid_email_def code_valid_email_def cond1_of_def cond2_of_def dot_in [OF d])
  next
    case False
    then show ?thesis
      by (auto simp: spec_valid_email_def code_valid_email_def cond1_of_def cond2_of_def)
  qed
qed

text \<open>
  Claim C2. The specification's rule rejects an address whose last character is a
  dot; the method keeps the row of \<open>a@b.\<close>, because it compares the position of
  the last dot with the length of the address and not with its final index.
\<close>

theorem trailing_dot_is_kept:
  "remove_rows_without_mail (email_table [''a@b.'']) = Inr (email_table [''a@b.''])
   \<and> \<not> spec_valid_email ''a@b.''"
  by (simp add: remove_rows_unfold email_table_def getitem_def cond1_of_def cond2_of_def
        str_rfind_def str_getitem_def mask_frame_def mask_list_def reset_index_def spec_valid_email_def)

text \<open>
  Claim C10. On a table with a text column \<open>email\<close> the method raises
  \<^verbatim>\<open>IndexError\<close> instead of returning a table exactly when some address is
  empty or has its only \<open>@\<close> as last character: the character after the
  \<open>@\<close> is read without a bounds guard.
\<close>

theorem remove_rows_raises_IndexError:
  assumes "getitem df ''email'' = Inr (StrCol emails)"
  shows "remove_rows_without_mail df = Inl IndexError \<longleftrightarrow> (\<exists>s\<in>set emails. at_read_out_of_range s)"
proof -
  let ?f = "\<lambda>s. str_find s CHR ''@''"
  have "remove_rows_without_mail df = Inl IndexError \<longleftrightarrow> cond3_loop (zip emails (map ?f emails)) = Inl IndexError"
    using assms by (auto simp: remove_rows_unfold Let_def split: sum.splits)
  also have "\<dots> \<longleftrightarrow> (\<exists>e. cond3_loop (zip emails (map ?f emails)) = Inl e)"
    by (auto dest: cond3_loop_error)
  also have "\<dots> \<longleftrightarrow> (\<exists>s\<in>set emails. \<exists>e. str_getitem s (?f s + 1) = Inl e)"
    by (rule cond3_loop_raises_iff)
  also have "\<dots> \<longleftrightarrow> (\<exists>s\<in>set emails. str_getitem s (?f s + 1) = Inl IndexError)"
    by (auto dest: str_getitem_error)
  also have "\<dots> \<longleftrightarrow> (\<exists>s\<in>set emails. at_read_out_of_range s)"
    by (simp add: str_getitem_after_at str_find_last_iff at_read_out_of_range_def)
  finally show ?thesis .
qed

theorem remove_rows_raises_IndexError_witness:
  "getitem (email_table [''x.y@z.w'', ''a.b@'']) ''email'' = Inr (StrCol [''x.y@z.w'', ''a.b@''])
   \<and> remove_rows_without_mail (email_table [''x.y@z.w'', ''a.b@'']) = Inl IndexError
   \<and> remove_rows_without_mail (email_table ['''']) = Inl IndexError"
proof -
  have g1: "getitem (email_table [''x.y@z.w'', ''a.b@'']) ''email'' = Inr (StrCol [''x.y@z.w'', ''a.b@''])"
    by (simp add: getitem_def email_table_def)
  have g2: "getitem (email_table ['''']) ''email'' = Inr (StrCol [''''])"
    by (simp add: getitem_def email_table_def)
  show ?thesis
    using g1 remove_rows_raises_IndexError [OF g1] remove_rows_raises_IndexError [OF g2]
    by (simp add: at_read_out_of_range_def)
qed

text \<open>
  Claim C7. The e-mail filter is idempotent: when \<^verbatim>\<open>remove_rows_without_mail\<close>
  returns a table, running it on that table returns the same table, so no further row is
  removed; every address of the returned table passes the rule the code applies.
\<close>

theorem remove_rows_idempotent:
  assumes "wf_frame df" "remove_rows_without_mail df = Inr df'"
  shows "remove_rows_without_mail df' = Inr df'
       \<and> (\<exists>kept. getitem df' ''email'' = Inr (StrCol kept) \<and> (\<forall>s\<in>set kept. code_valid_email s))"
proof -
  from assms(2) obtain emails where g: "getitem df ''email'' = Inr (StrCol emails)"
    and df': "df' = reset_index (mask_frame df (map code_valid_email emails))"
    by (rule remove_rows_Inr)
  have len: "length emails = length (index df)"
    using getitem_col_len [OF assms(1) g] by simp
  have g': "getitem df' ''email'' = Inr (StrCol (filter code_valid_email emails))"
    by (simp add: df' getitem_mask_frame g mask_list_map)
  have wf': "wf_frame df'"
    unfolding df' using assms(1) len by (intro wf_frame_mask) simp_all
  have idx: "index df' = [0..<length (index df')]"
    by (simp add: df' reset_index_def)
  have "remove_rows_without_mail df' = Inr df'"
    by (rule remove_rows_all_valid [OF g' _ wf' idx]) simp
  with g' show ?thesis by simp
qed

theorem remove_rows_idempotent_witness:
  "wf_frame (email_table [''a.b@c.com'', ''abc.com''])
   \<and> remove_rows_without_mail (email_table [''a.b@c.com'', ''abc.com'']) = Inr (email_table [''a.b@c.com''])
   \<and> remove_rows_without_mail (email_table [''a.b@c.com'']) = Inr (email_table [''a.b@c.com''])"
proof -
  have wf: "wf_frame (email_table [''a.b@c.com'', ''abc.com''])"
    by (simp add: wf_frame_def email_table_def)
  have r: "remove_rows_without_mail (email_table [''a.b@c.com'', ''abc.com'']) = Inr (email_table [''a.b@c.com''])"
    by (simp add: remove_rows_unfold email_table_def getitem_def cond1_of_def cond2_of_def
        str_rfind_def str_getitem_def mask_frame_def mask_list_def reset_index_def)
  show ?thesis using wf r remove_rows_idempotent [OF wf r] by simp
qed

section \<open>Properties of the age histogram\<close>

lemma linspace_bins: "np_linspace 0 100 11 = [0, 10, 20, 30, 40, 50, 60, 70, 80, 90, 100]"
  by code_simp

lemma in_bin_count:
  "length (filter (\<lambda>i. in_bin [0, 10, 20, 30, 40, 50, 60, 70, 80, 90, 100] i x) [0, 1, 2, 3, 4, 5, 6, 7, 8, 9])
     = (if age_in_bins x then 1 else 0)"
proof (cases x)
  case None
  then show ?thesis by (simp add: in_bin_def age_in_bins_def)
next
  case (Some v)
  consider "v < 0" | "0 \<le> v \<and> v < 10" | "10 \<le> v \<and> v < 20" | "20 \<le> v \<and> v < 30"
    | "30 \<le> v \<and> v < 40" | "40 \<le> v \<and> v < 50" | "50 \<le> v \<and> v < 60" | "60 \<le> v \<and> v < 70"
    | "70 \<le> v \<and> v < 80" | "80 \<le> v \<and> v < 90" | "90 \<le> v \<and> v \<le> 100" | "100 < v"
    by linarith
  then show ?thesis
    by cases (simp_all add: Some in_bin_def age_in_bins_def)
qed

lemma sum_filter_swap:
  "sum_list (map (\<lambda>i. length (filter (P i) xs)) js) = sum_list (map (\<lambda>x. length (filter (\<lambda>i. P i x) js)) xs)"
proof (induction xs)
  case Nil
  show ?case by simp
next
  case (Cons x xs)
  have "sum_list (map (\<lambda>i. length (filter (P i) (x # xs))) js)
        = sum_list (map (\<lambda>i. (if P i x then 1 else 0) + length (filter (P i) xs)) js)"
    by (intro arg_cong [where f = sum_list] map_cong) auto
  also have "\<dots> = sum_list (map (\<lambda>i. if P i x then 1 else 0) js) + sum_list (map (\<lambda>i. length (filter (P i) xs)) js)"
    by (simp add: sum_list_addf)
  also have "sum_list (map (\<lambda>i. if P i x then 1 else 0) js) = length (filter (\<lambda>i. P i x) js)"
    by (induction js) auto
  finally show ?case using Cons by simp
qed

lemma length_np_histogram: "length (np_histogram a bins) = length bins - 1"
  by (simp add: np_histogram_def)

lemma histogram_total:
  "sum_list (np_histogram ages [0, 10, 20, 30, 40, 50, 60, 70, 80, 90, 100]) = length (filter age_in_bins ages)"
proof -
  let ?B = "[0, 10, 20, 30, 40, 50, 60, 70, 80, 90, 100] :: rat list"
  have u: "[0..<length ?B - 1] = [0, 1, 2, 3, 4, 5, 6, 7, 8, 9]"
    by code_simp
  have "sum_list (np_histogram ages ?B)
        = sum_list (map (\<lambda>x. length (filter (\<lambda>i. in_bin ?B i x) [0..<length ?B - 1])) ages)"
    unfolding np_histogram_def by (rule sum_filter_swap)
  also have "\<dots> = sum_list (map (\<lambda>x. if age_in_bins x then 1 else 0) ages)"
    by (simp only: u in_bin_count)
  also have "\<dots> = length (filter age_in_bins ages)"
    by (induction ages) auto
  finally show ?thesis .
qed

text \<open>
  Claim C4, as amended. On a table with a float column \<open>age\<close> the method returns
  ten counts and eleven edges, and the counts add up to the number of ages that are
  present and lie in the closed interval from 0 to 100. A missing age and an age outside
  the fixed edges fall in no bucket.
\<close>

theorem histogram_counts_ages_in_range:
  assumes "getitem df ''age'' = Inr (FloatCol ages)"
  shows "\<exists>hist bins. show_age_distrib df = Inr (hist, bins)
           \<and> length hist = 10 \<and> length bins = 11
           \<and> sum_list hist = length (filter age_in_bins ages)"
proof -
  let ?B = "[0, 10, 20, 30, 40, 50, 60, 70, 80, 90, 100] :: rat list"
  have "show_age_distrib df = Inr (np_histogram ages ?B, ?B)"
    using assms by (simp add: show_age_distrib_def linspace_bins Let_def)
  moreover have "length (np_histogram ages ?B) = 10"
    by (simp add: length_np_histogram)
  ultimately show ?thesis
    using histogram_total [of ages] by simp
qed

theorem histogram_counts_ages_in_range_witness:
  "getitem (age_table [Some 30, Some 120, None, Some 100, Some 0]) ''age''
     = Inr (FloatCol [Some 30, Some 120, None, Some 100, Some 0])
   \<and> (\<exists>hist bins. show_age_distrib (age_table [Some 30, Some 120, None, Some 100, Some 0]) = Inr (hist, bins)
           \<and> length hist = 10 \<and> length bins = 11 \<and> sum_list hist = 3)"
proof -
  have g: "getitem (age_table [Some 30, Some 120, None, Some 100, Some 0]) ''age''
             = Inr (FloatCol [Some 30, Some 120, None, Some 100, Some 0])"
    by (simp add: getitem_def age_table_def)
  have n: "length (filter age_in_bins [Some 30, Some 120, None, Some 100, Some 0]) = 3"
    by (simp add: age_in_bins_def)
  show ?thesis
    using g histogram_counts_ages_in_range [OF g] unfolding n by blast
qed

text \<open>An age of 120 is present and is counted in no bucket: of two present ages the
  histogram counts one.\<close>

theorem histogram_misses_age_above_100:
  "show_age_distrib (age_table [Some 30, Some 120, None])
     = Inr ([0, 0, 0, 1, 0, 0, 0, 0, 0, 0], [0, 10, 20, 30, 40, 50, 60, 70, 80, 90, 100])
   \<and> sum_list [0, 0, 0, 1, 0, 0, 0, 0, 0, 0] = (1::nat)
   \<and> length (present [Some 30, Some 120, None :: rat option]) = 2"
  by code_simp

section \<open>Facts about the grade columns\<close>

lemma pos_of_append:
  "a \<notin> set xs \<Longrightarrow> pos_of ys a = Some k \<Longrightarrow> pos_of (xs @ ys) a = Some (length xs + k)"
  by (induction xs) auto

lemma pos_of_append_left: "pos_of xs a = Some k \<Longrightarrow> pos_of (xs @ ys) a = Some k"
  by (induction xs arbitrary: k) auto

lemma pos_of_upt: "p < n \<Longrightarrow> pos_of [0..<n] p = Some p"
proof (induction n)
  case 0
  then show ?case by simp
next
  case (Suc n)
  show ?case
  proof (cases "p < n")
    case True
    then show ?thesis
      using Suc.IH by (simp add: pos_of_append_left)
  next
    case False
    with Suc.prems have "p = n" by simp
    then show ?thesis
      using pos_of_append [of n "[0..<n]" "[n]" 0] by simp
  qed
qed

lemma map2_upt: "length c = n \<Longrightarrow> map2 f [0..<n] c = map (\<lambda>p. f p (c ! p)) [0..<n]"
  by (auto simp: list_eq_iff_nth_eq)

lemma loc_cols_grades:
  assumes "columns df = before @ [(''q1'', FloatCol c1), (''q2'', FloatCol c2), (''q3'', FloatCol c3),
                               (''q4'', FloatCol c4), (''q5'', FloatCol c5)] @ after"
    and "''q1'' \<notin> set (map fst before)" "''q5'' \<notin> set (map fst before)"
  shows "loc_cols df ''q1'' ''q5'' =
           Inr (df\<lparr>columns := [(''q1'', FloatCol c1), (''q2'', FloatCol c2), (''q3'', FloatCol c3),
                               (''q4'', FloatCol c4), (''q5'', FloatCol c5)]\<rparr>)"
proof -
  let ?five = "[(''q1'', FloatCol c1), (''q2'', FloatCol c2), (''q3'', FloatCol c3),
                (''q4'', FloatCol c4), (''q5'', FloatCol c5)]"
  have names: "map fst (columns df) = map fst before @ (map fst ?five @ map fst after)"
    by (simp add: assms(1))
  have p1: "pos_of (map fst (columns df)) ''q1'' = Some (length before)"
    unfolding names using assms(2) pos_of_append [of "''q1''" "map fst before" _ 0] by simp
  have p5: "pos_of (map fst (columns df)) ''q5'' = Some (length before + 4)"
    unfolding names using assms(3) pos_of_append [of "''q5''" "map fst before" _ 4] by simp
  have "take (Suc (length before + 4) - length before) (drop (length before) (columns df)) = ?five"
    by (simp add: assms(1))
  then show ?thesis
    by (simp add: loc_cols_def get_slice_bound_def p1 p5)
qed

lemma mean1_grades:
  "mean1 (df\<lparr>columns := [(''q1'', FloatCol c1), (''q2'', FloatCol c2), (''q3'', FloatCol c3),
                         (''q4'', FloatCol c4), (''q5'', FloatCol c5)]\<rparr>)
     = Inr (map (\<lambda>p. nanmean (grades_of_row c1 c2 c3 c4 c5 p)) [0..<length (index df)])"
  by (simp add: mean1_def grades_of_row_def)

lemma isna_sum1_grades:
  assumes "length c1 = n" "length c2 = n" "length c3 = n" "length c4 = n" "length c5 = n"
    "length (index df) = n"
  shows "isna_sum1 (df\<lparr>columns := [(''q1'', FloatCol c1), (''q2'', FloatCol c2), (''q3'', FloatCol c3),
                         (''q4'', FloatCol c4), (''q5'', FloatCol c5)]\<rparr>)
     = map (\<lambda>p. missing_count (grades_of_row c1 c2 c3 c4 c5 p)) [0..<n]"
  using assms by (simp add: isna_sum1_def grades_of_row_def missing_count_def)

lemma grade_columns_lengths:
  assumes "wf_frame df" "grade_columns df c1 c2 c3 c4 c5"
  shows "length c1 = length (index df) \<and> length c2 = length (index df) \<and> length c3 = length (index df)
       \<and> length c4 = length (index df) \<and> length c5 = length (index df)"
  using assms by (auto simp: wf_frame_def grade_columns_def)

section \<open>Properties of the imputation\<close>

lemma map_of_map_named:
  "map_of (map (\<lambda>nc. (fst nc, g (fst nc) (snd nc))) cs) k = map_option (g k) (map_of cs k)"
  by (induction cs) auto

lemma getitem_fillna:
  "getitem (fillna df other) name =
     (case getitem df name of Inl e \<Rightarrow> Inl e | Inr c \<Rightarrow> Inr (fillna_col other (index df) name c))"
  by (simp add: getitem_def fillna_def
        map_of_map_named [where g = "\<lambda>n c. fillna_col other (index df) n c"] split: option.splits)

lemma fill_na_with_mean_Inr:
  assumes "fill_na_with_mean df = Inr (df', arr)"
  obtains other where "df' = fillna df other"
  using assms by (auto simp: fill_na_with_mean_def Let_def split: sum.splits)

text \<open>
  Claim C5. When \<^verbatim>\<open>fill_na_with_mean\<close> returns a table, every cell of a float
  column that was present in the original table holds the same value in the returned
  table, at the same position; this covers \<open>q1\<close> to \<open>q5\<close>. Only missing cells
  are overwritten.
\<close>

theorem fill_na_keeps_present_values:
  assumes "wf_frame df" "fill_na_with_mean df = Inr (df', arr)"
    and "getitem df name = Inr (FloatCol xs)" "p < length xs" "xs ! p = Some v"
  shows "\<exists>ys. getitem df' name = Inr (FloatCol ys) \<and> length ys = length xs \<and> ys ! p = Some v"
proof -
  from assms(2) obtain other where df': "df' = fillna df other"
    by (rule fill_na_with_mean_Inr)
  have len: "length xs = length (index df)"
    using getitem_col_len [OF assms(1) assms(3)] by simp
  let ?ys = "map2 (fillna_cell other name) (index df) xs"
  have "getitem df' name = Inr (FloatCol ?ys)"
    by (simp add: df' getitem_fillna assms(3))
  moreover have "length ?ys = length xs"
    using len by simp
  moreover have "?ys ! p = Some v"
    using assms(4,5) len by (simp add: fillna_cell_def)
  ultimately show ?thesis by blast
qed

theorem fill_na_keeps_present_values_witness:
  "wf_frame (grade_table [Some 2] [Some 4] [None] [Some 6] [Some 8])
   \<and> fill_na_with_mean (grade_table [Some 2] [Some 4] [None] [Some 6] [Some 8])
       = Inr (grade_table [Some 2] [Some 4] [Some 5] [Some 6] [Some 8], [0])
   \<and> getitem (grade_table [Some 2] [Some 4] [None] [Some 6] [Some 8]) ''q4'' = Inr (FloatCol [Some 6])
   \<and> (\<exists>ys. getitem (grade_table [Some 2] [Some 4] [Some 5] [Some 6] [Some 8]) ''q4'' = Inr (FloatCol ys)
          \<and> length ys = 1 \<and> ys ! 0 = Some 6)"
proof -
  let ?t = "grade_table [Some 2] [Some 4] [None] [Some 6] [Some 8]"
  have wf: "wf_frame ?t"
    by (simp add: wf_frame_def grade_table_def)
  have r: "fill_na_with_mean ?t = Inr (grade_table [Some 2] [Some 4] [Some 5] [Some 6] [Some 8], [0])"
    by code_simp
  have g: "getitem ?t ''q4'' = Inr (FloatCol [Some 6])"
    by (simp add: getitem_def grade_table_def)
  show ?thesis
    using wf r g fill_na_keeps_present_values [OF wf r g, of 0 6] by simp
qed

lemma means_frame:
  assumes "length v = 100"
  shows "np_broadcast_to v (5, 100) = Inr (replicate 5 v)"
    and "np_transpose (replicate 5 v) = map (\<lambda>p. replicate 5 (v ! p)) [0..<100]"
    and "DataFrame (map (\<lambda>p. replicate 5 (v ! p)) [0..<100]) [''q1'', ''q2'', ''q3'', ''q4'', ''q5'']
           = Inr \<lparr>index = [0..<100],
                  columns = [(''q1'', FloatCol v), (''q2'', FloatCol v), (''q3'', FloatCol v),
                             (''q4'', FloatCol v), (''q5'', FloatCol v)]\<rparr>"
proof -
  show "np_broadcast_to v (5, 100) = Inr (replicate 5 v)"
    using assms by (simp add: np_broadcast_to_def)
  have r5: "replicate 5 x = [x, x, x, x, x]" for x :: "'b"
    by (simp add: eval_nat_numeral)
  show "np_transpose (replicate 5 v) = map (\<lambda>p. replicate 5 (v ! p)) [0..<100]"
    using assms by (simp add: r5 np_transpose_def)
  have u5: "[0..<5] = [0, 1, 2, 3, 4]"
    by code_simp
  have col: "map ((\<lambda>row. row ! j) \<circ> (\<lambda>p. replicate 5 (v ! p))) [0..<100] = v" if "j < 5" for j
  proof -
    have "map ((\<lambda>row. row ! j) \<circ> (\<lambda>p. replicate 5 (v ! p))) [0..<100] = map (\<lambda>p. v ! p) [0..<length v]"
      using that assms by simp
    then show ?thesis by (simp add: map_nth)
  qed
  show "DataFrame (map (\<lambda>p. replicate 5 (v ! p)) [0..<100]) [''q1'', ''q2'', ''q3'', ''q4'', ''q5'']
           = Inr \<lparr>index = [0..<100],
                  columns = [(''q1'', FloatCol v), (''q2'', FloatCol v), (''q3'', FloatCol v),
                             (''q4'', FloatCol v), (''q5'', FloatCol v)]\<rparr>"
    unfolding DataFrame_def
    using col [of 0] col [of "Suc 0"] col [of "Suc (Suc 0)"] col [of "Suc (Suc (Suc 0))"]
      col [of "Suc (Suc (Suc (Suc 0)))"]
    by (simp add: list_all_iff u5)
qed

lemma fillna_col_means:
  assumes "length v = 100" "length c = 100" "name \<in> set [''q1'', ''q2'', ''q3'', ''q4'', ''q5'']"
  shows "fillna_col \<lparr>index = [0..<100],
                     columns = [(''q1'', FloatCol v), (''q2'', FloatCol v), (''q3'', FloatCol v),
                                (''q4'', FloatCol v), (''q5'', FloatCol v)]\<rparr> [0..<100] name (FloatCol c)
         = FloatCol (map (\<lambda>p. case c ! p of Some x \<Rightarrow> Some x | None \<Rightarrow> v ! p) [0..<100])"
proof -
  let ?other = "\<lparr>index = [0..<100],
                     columns = [(''q1'', FloatCol v), (''q2'', FloatCol v), (''q3'', FloatCol v),
                                (''q4'', FloatCol v), (''q5'', FloatCol v)]\<rparr>"
  have look: "map_of (columns ?other) name = Some (FloatCol v)"
    using assms(3) by auto
  have cell: "fillna_cell ?other name p x = (case x of Some y \<Rightarrow> Some y | None \<Rightarrow> v ! p)" if "p < 100" for p x
    unfolding fillna_cell_def look using that by (simp add: pos_of_upt del: upt_Suc split: option.splits)
  have "map2 (fillna_cell ?other name) [0..<100] c = map (\<lambda>p. fillna_cell ?other name p (c ! p)) [0..<100]"
    using assms(2) by (rule map2_upt)
  also have "\<dots> = map (\<lambda>p. case c ! p of Some x \<Rightarrow> Some x | None \<Rightarrow> v ! p) [0..<100]"
    by (rule map_cong) (simp_all add: cell del: upt_Suc)
  finally show ?thesis by simp
qed

lemma fillna_col_other_name:
  assumes "name \<notin> set (map fst (columns other))" "col_len c = length labels"
  shows "fillna_col other labels name c = c"
proof (cases c)
  case (FloatCol xs)
  have none: "map_of (columns other) name = None"
    using assms(1) map_of_eq_None_iff [of "columns other" name] by simp
  have "map2 (fillna_cell other name) labels xs = xs"
    using assms(2) FloatCol
    by (auto simp: list_eq_iff_nth_eq fillna_cell_def none split: option.splits)
  with FloatCol show ?thesis by simp
qed simp_all

lemma map_of_grade_column:
  assumes "columns df = before @ five @ after" "distinct (map fst (columns df))" "(name, c) \<in> set five"
  shows "getitem df name = Inr c"
proof -
  have "(name, c) \<in> set (columns df)"
    using assms(1,3) by simp
  then have "map_of (columns df) name = Some c"
    using assms(2) by (simp add: map_of_eq_Some_iff)
  then show ?thesis by (simp add: getitem_def)
qed

text \<open>On a table of exactly 100 rows labelled \<open>0..99\<close> the method does what
  the specification describes: every missing grade becomes the mean of the row's present
  grades (the exact mean here, its float64 rounding in the program), a row without grades
  keeps its NaN, every other cell stays, and the second result lists the rows that had a
  missing grade.\<close>

lemma fill_na_on_100_rows:
  assumes "wf_frame df" "grade_columns df c1 c2 c3 c4 c5" "distinct (map fst (columns df))"
    and "index df = [0..<100]"
  shows "\<exists>df'. fill_na_with_mean df
                 = Inr (df', filter (\<lambda>p. 0 < missing_count (grades_of_row c1 c2 c3 c4 c5 p)) [0..<100])
           \<and> index df' = index df
           \<and> getitem df' ''q1'' = Inr (FloatCol (imputed c1 c2 c3 c4 c5 c1))
           \<and> getitem df' ''q2'' = Inr (FloatCol (imputed c1 c2 c3 c4 c5 c2))
           \<and> getitem df' ''q3'' = Inr (FloatCol (imputed c1 c2 c3 c4 c5 c3))
           \<and> getitem df' ''q4'' = Inr (FloatCol (imputed c1 c2 c3 c4 c5 c4))
           \<and> getitem df' ''q5'' = Inr (FloatCol (imputed c1 c2 c3 c4 c5 c5))
           \<and> (\<forall>name. name \<notin> set [''q1'', ''q2'', ''q3'', ''q4'', ''q5''] \<longrightarrow> getitem df' name = getitem df name)"
proof -
  let ?row = "grades_of_row c1 c2 c3 c4 c5"
  let ?five = "[(''q1'', FloatCol c1), (''q2'', FloatCol c2), (''q3'', FloatCol c3),
                (''q4'', FloatCol c4), (''q5'', FloatCol c5)]"
  let ?g = "df\<lparr>columns := ?five\<rparr>"
  let ?v = "map (\<lambda>p. nanmean (?row p)) [0..<100]"
  let ?other = "\<lparr>index = [0..<100],
                     columns = [(''q1'', FloatCol ?v), (''q2'', FloatCol ?v), (''q3'', FloatCol ?v),
                                (''q4'', FloatCol ?v), (''q5'', FloatCol ?v)]\<rparr>"
  let ?df' = "fillna df ?other"
  have n: "length (index df) = 100"
    by (simp add: assms(4))
  from assms(2) obtain before after where cols: "columns df = before @ ?five @ after"
    and nb: "''q1'' \<notin> set (map fst before)" "''q5'' \<notin> set (map fst before)"
    unfolding grade_columns_def by blast
  have loc: "loc_cols df ''q1'' ''q5'' = Inr ?g"
    by (rule loc_cols_grades [OF cols nb])
  have lens: "length c1 = 100" "length c2 = 100" "length c3 = 100" "length c4 = 100" "length c5 = 100"
    using grade_columns_lengths [OF assms(1,2)] n by simp_all
  have mean: "mean1 ?g = Inr ?v"
    using mean1_grades [where df = df] n by simp
  have nan: "isna_sum1 ?g = map (\<lambda>p. missing_count (?row p)) [0..<100]"
    by (rule isna_sum1_grades [OF lens n])
  have lv: "length ?v = 100"
    by simp
  have arr: "mask_list [0..<100] (map (\<lambda>k. 0 < k) (map (\<lambda>p. missing_count (?row p)) [0..<100]))
               = filter (\<lambda>p. 0 < missing_count (?row p)) [0..<100]"
    using mask_list_map [where P = "\<lambda>p. 0 < missing_count (?row p)" and xs = "[0..<100]"]
    by (simp add: comp_def)
  have res: "fill_na_with_mean df = Inr (?df', filter (\<lambda>p. 0 < missing_count (?row p)) [0..<100])"
    unfolding fill_na_with_mean_def loc
    by (simp only: sum.case mean means_frame [OF lv] Let_def nan n arr)
  have idx: "index ?df' = index df"
    by (simp add: fillna_def)
  have q: "getitem ?df' name = Inr (FloatCol (imputed c1 c2 c3 c4 c5 c))"
    if "(name, FloatCol c) \<in> set ?five" for name c
  proof -
    have g: "getitem df name = Inr (FloatCol c)"
      by (rule map_of_grade_column [OF cols assms(3) that])
    have lc: "length c = 100"
      using that lens by auto
    have nm: "name \<in> set [''q1'', ''q2'', ''q3'', ''q4'', ''q5'']"
      using that by auto
    have "fillna_col ?other [0..<100] name (FloatCol c)
            = FloatCol (map (\<lambda>p. case c ! p of Some x \<Rightarrow> Some x | None \<Rightarrow> ?v ! p) [0..<100])"
      by (rule fillna_col_means [OF lv lc nm])
    also have "map (\<lambda>p. case c ! p of Some x \<Rightarrow> Some x | None \<Rightarrow> ?v ! p) [0..<100] = imputed c1 c2 c3 c4 c5 c"
      unfolding imputed_def lc by (rule map_cong) (simp_all add: nth_map_upt del: upt_Suc split: option.splits)
    finally show ?thesis
      by (simp add: getitem_fillna g assms(4))
  qed
  have others: "getitem ?df' name = getitem df name"
    if "name \<notin> set [''q1'', ''q2'', ''q3'', ''q4'', ''q5'']" for name
  proof (cases "getitem df name")
    case (Inl e)
    then show ?thesis by (simp add: getitem_fillna)
  next
    case (Inr c)
    have "col_len c = length (index df)"
      by (rule getitem_col_len [OF assms(1) Inr])
    then have "fillna_col ?other (index df) name c = c"
      using that by (intro fillna_col_other_name) simp_all
    then show ?thesis by (simp add: getitem_fillna Inr)
  qed
  show ?thesis
    using res idx others q [of "''q1''" c1] q [of "''q2''" c2] q [of "''q3''" c3] q [of "''q4''" c4]
      q [of "''q5''" c5]
    by (intro exI [of _ ?df']) simp
qed

text \<open>On a table of any other size, a single row excepted, the broadcast raises.\<close>

lemma fill_na_other_sizes:
  assumes "wf_frame df" "grade_columns df c1 c2 c3 c4 c5"
    and "length (index df) \<noteq> 100" "length (index df) \<noteq> 1"
  shows "fill_na_with_mean df = Inl ValueError"
proof -
  let ?g = "df\<lparr>columns := [(''q1'', FloatCol c1), (''q2'', FloatCol c2), (''q3'', FloatCol c3),
                         (''q4'', FloatCol c4), (''q5'', FloatCol c5)]\<rparr>"
  have loc: "loc_cols df ''q1'' ''q5'' = Inr ?g"
    using assms(2) by (auto simp: grade_columns_def intro: loc_cols_grades)
  show ?thesis
    using assms(3,4) by (simp add: fill_na_with_mean_def loc mean1_grades np_broadcast_to_def)
qed

text \<open>
  Claim C1. The claim asks for the imputation on tables of any size. The method
  broadcasts the row means to the fixed shape \<open>(5, 100)\<close>: on the specification's
  example row alone it fills the missing grade with the mean 5 and reports row 0, and on
  a table of two such rows it raises \<^verbatim>\<open>ValueError\<close>.
\<close>

theorem fill_na_needs_100_rows:
  "fill_na_with_mean (grade_table [Some 2] [Some 4] [None] [Some 6] [Some 8])
     = Inr (grade_table [Some 2] [Some 4] [Some 5] [Some 6] [Some 8], [0])
   \<and> fill_na_with_mean (grade_table [Some 2, Some 2] [Some 4, Some 4] [None, None] [Some 6, Some 6] [Some 8, Some 8])
     = Inl ValueError"
  by code_simp

section \<open>Properties of the score\<close>












section \<open>The loaded table is never written\<close>

text \<open>Copying the table and writing the score into the copy gives the caller the frame
  that \<open>score_subjects\<close> computes, in a new object.\<close>

lemma method_call_score_subjects:
  "method_call self (ScoreSubjects m) h =
     (case score_subjects (deref h (data self)) m of
        Inl e \<Rightarrow> (Raised e, h)
      | Inr df' \<Rightarrow> (Table (next_addr h), snd (alloc df' h)))"
  by (auto simp: score_subjects_def alloc_def deref_def Let_def split: sum.splits)

lemma method_call_heap:
  assumes "heap_ok h"
  shows "heap_ok (snd (method_call self c h))
       \<and> next_addr h \<le> next_addr (snd (method_call self c h))
       \<and> (\<forall>a<next_addr h. frames (snd (method_call self c h)) a = frames h a)
       \<and> (\<forall>a. result_table (fst (method_call self c h)) = Some a \<longrightarrow> a = next_addr h)"
  using assms
  by (cases c) (auto simp: alloc_def heap_ok_def Let_def split: sum.splits prod.splits)

lemma allocated_below_next: "heap_ok h \<Longrightarrow> frames h a = Some f \<Longrightarrow> a < next_addr h"
  by (metis heap_ok_def not_le option.distinct(1))

lemma run_calls_heap:
  assumes "heap_ok h"
  shows "heap_ok (run_calls self cs h)
       \<and> (\<forall>a<next_addr h. frames (run_calls self cs h) a = frames h a)
       \<and> next_addr h \<le> next_addr (run_calls self cs h)"
  using assms
proof (induction cs arbitrary: h)
  case Nil
  then show ?case by simp
next
  case (Cons c cs)
  let ?h1 = "snd (method_call self c h)"
  from method_call_heap [OF Cons.prems, of self c]
  have ok1: "heap_ok ?h1" and le: "next_addr h \<le> next_addr ?h1"
    and same: "\<forall>a<next_addr h. frames ?h1 a = frames h a"
    by simp_all
  from Cons.IH [OF ok1] le same show ?case
    by (auto simp: le_trans)
qed

lemma init_heap:
  assumes "heap_ok h0" "init read_json fname h0 = (Inr self, h)"
  shows "heap_ok h \<and> data self = next_addr h0 \<and> data self < next_addr h
       \<and> (\<exists>df. read_json (data_fname self) = Inr df \<and> frames h (data self) = Some df)
       \<and> (\<forall>a<next_addr h0. frames h a = frames h0 a)"
  using assms
  by (auto simp: init_def read_data_def alloc_def heap_ok_def Let_def split: sum.splits fname.splits)

text \<open>
  Claim C8. Let the object be constructed from a readable file. After any number of
  calls of the four methods, in any order and whether or not they raise, the frame that
  \<^verbatim>\<open>self.data\<close> refers to is the frame that was loaded, and every frame that
  existed before the calls is unchanged. A call that returns a table returns a new
  object: its address is not \<^verbatim>\<open>self.data\<close> and was not in use before the call.
\<close>

theorem loaded_table_never_mutated:
  assumes "heap_ok h0" "init read_json fname h0 = (Inr self, h)"
  shows "\<exists>df. read_json (data_fname self) = Inr df
           \<and> frames h (data self) = Some df
           \<and> frames (run_calls self cs h) (data self) = Some df
           \<and> (\<forall>a f. frames h a = Some f \<longrightarrow> frames (run_calls self cs h) a = Some f)
           \<and> (\<forall>c a. result_table (fst (method_call self c (run_calls self cs h))) = Some a \<longrightarrow>
                  a \<noteq> data self \<and> frames (run_calls self cs h) a = None)"
proof -
  from init_heap [OF assms] obtain df where ok: "heap_ok h" and lt: "data self < next_addr h"
    and rd: "read_json (data_fname self) = Inr df" and st: "frames h (data self) = Some df"
    by blast
  let ?h = "run_calls self cs h"
  from run_calls_heap [OF ok, of self cs]
  have ok': "heap_ok ?h" and same: "\<forall>a<next_addr h. frames ?h a = frames h a"
    and le: "next_addr h \<le> next_addr ?h"
    by simp_all
  have keep: "frames ?h a = Some f" if "frames h a = Some f" for a f
    using that same allocated_below_next [OF ok that] by simp
  have fresh: "a \<noteq> data self \<and> frames ?h a = None"
    if "result_table (fst (method_call self c ?h)) = Some a" for c a
  proof -
    from method_call_heap [OF ok', of self c] that have "a = next_addr ?h"
      by blast
    with lt le ok' show ?thesis
      by (auto simp: heap_ok_def)
  qed
  show ?thesis
    using rd st keep [OF st] keep fresh by blast
qed

theorem loaded_table_never_mutated_witness:
  "heap_ok empty_heap
   \<and> init (\<lambda>p. Inr sample_table) (StrValue ''data.json'') empty_heap
       = (Inr \<lparr>data_fname = Path ''data.json'', data = 0\<rparr>,
          \<lparr>frames = (\<lambda>a. None)(0 \<mapsto> sample_table), next_addr = 1\<rparr>)
   \<and> frames (run_calls \<lparr>data_fname = Path ''data.json'', data = 0\<rparr>
               [ScoreSubjects 1, FillNaWithMean, ShowAgeDistrib, RemoveRowsWithoutMail, ScoreSubjects 0]
               \<lparr>frames = (\<lambda>a. None)(0 \<mapsto> sample_table), next_addr = 1\<rparr>) 0
       = Some sample_table"
proof -
  let ?self = "\<lparr>data_fname = Path ''data.json'', data = 0\<rparr>"
  let ?h = "\<lparr>frames = (\<lambda>a. None)(0 \<mapsto> sample_table), next_addr = 1\<rparr>"
  let ?calls = "[ScoreSubjects 1, FillNaWithMean, ShowAgeDistrib, RemoveRowsWithoutMail, ScoreSubjects 0]"
  have ok: "heap_ok empty_heap"
    by (simp add: heap_ok_def empty_heap_def)
  have i: "init (\<lambda>p. Inr sample_table) (StrValue ''data.json'') empty_heap = (Inr ?self, ?h)"
    by (simp add: init_def as_path_def read_data_def alloc_def empty_heap_def)
  from loaded_table_never_mutated [OF ok i, of ?calls]
  have "frames (run_calls ?self ?calls ?h) 0 = Some sample_table"
    by auto
  with ok i show ?thesis by blast
qed

text \<open>On the sample table the first call returns the scored copy at a new address, and
  the table of the object is as before.\<close>

lemma score_subjects_on_sample:
  "fst (method_call \<lparr>data_fname = Path ''data.json'', data = 0\<rparr> (ScoreSubjects 1)
          \<lparr>frames = (\<lambda>a. None)(0 \<mapsto> sample_table), next_addr = 1\<rparr>) = Table 1
   \<and> frames (snd (method_call \<lparr>data_fname = Path ''data.json'', data = 0\<rparr> (ScoreSubjects 1)
          \<lparr>frames = (\<lambda>a. None)(0 \<mapsto> sample_table), next_addr = 1\<rparr>)) 1
       = Some (setitem sample_table ''score'' (UInt8Col [Some 5]))
   \<and> frames (snd (method_call \<lparr>data_fname = Path ''data.json'', data = 0\<rparr> (ScoreSubjects 1)
          \<lparr>frames = (\<lambda>a. None)(0 \<mapsto> sample_table), next_addr = 1\<rparr>)) 0
       = Some sample_table"
proof -
  have "score_subjects sample_table 1 = Inr (setitem sample_table ''score'' (UInt8Col [Some 5]))"
    by code_simp
  then show ?thesis
    unfolding method_call_score_subjects by (simp add: deref_def alloc_def)
qed

section \<open>Failures\<close>

lemma pos_of_None_iff: "pos_of xs a = None \<longleftrightarrow> a \<notin> set xs"
  by (induction xs) auto

lemma getitem_Inl_iff: "getitem df name = Inl e \<longleftrightarrow> e = KeyError \<and> name \<notin> set (map fst (columns df))"
  using map_of_eq_None_iff [of "columns df" name] by (auto simp: getitem_def split: option.splits)

lemma get_slice_bound_Inl_iff:
  "get_slice_bound labels a left = Inl e \<longleftrightarrow>
     e = KeyError \<and> a \<notin> set labels \<and> \<not> sorted labels \<and> \<not> sorted (rev labels)"
proof (cases "pos_of labels a")
  case None
  then have "a \<notin> set labels" by (simp add: pos_of_None_iff)
  with None show ?thesis by (auto simp: get_slice_bound_def)
next
  case (Some i)
  then have "a \<in> set labels"
    using pos_of_None_iff [of labels a] by auto
  with Some show ?thesis by (simp add: get_slice_bound_def)
qed

lemma loc_cols_Inl_iff:
  "loc_cols df a b = Inl e \<longleftrightarrow>
     e = KeyError \<and> (a \<notin> set (map fst (columns df)) \<or> b \<notin> set (map fst (columns df)))
     \<and> \<not> sorted (map fst (columns df)) \<and> \<not> sorted (rev (map fst (columns df)))"
proof (cases "get_slice_bound (map fst (columns df)) a True")
  case (Inl e1)
  then show ?thesis
    using get_slice_bound_Inl_iff [of "map fst (columns df)" a True e1]
    by (auto simp: loc_cols_def)
next
  case start: (Inr i)
  then have a: "\<not> (a \<notin> set (map fst (columns df)) \<and> \<not> sorted (map fst (columns df))
                   \<and> \<not> sorted (rev (map fst (columns df))))"
    using get_slice_bound_Inl_iff [of "map fst (columns df)" a True KeyError] by auto
  show ?thesis
  proof (cases "get_slice_bound (map fst (columns df)) b False")
    case (Inl e2)
    then show ?thesis
      using start get_slice_bound_Inl_iff [of "map fst (columns df)" b False e2]
      by (auto simp: loc_cols_def)
  next
    case (Inr j)
    then have b: "\<not> (b \<notin> set (map fst (columns df)) \<and> \<not> sorted (map fst (columns df))
                   \<and> \<not> sorted (rev (map fst (columns df))))"
      using get_slice_bound_Inl_iff [of "map fst (columns df)" b False KeyError] by auto
    show ?thesis
      using start Inr a b by (auto simp: loc_cols_def)
  qed
qed

lemma sequence_err_Inl: "sequence_err xs = Inl e \<Longrightarrow> Inl e \<in> set xs"
  by (induction xs) (auto split: sum.splits)

lemma mean1_Inl: "mean1 g = Inl e \<Longrightarrow> e = TypeError"
proof -
  assume a: "mean1 g = Inl e"
  then have "sequence_err (map (\<lambda>nc. col_floats (snd nc)) (columns g)) = Inl e"
    by (auto simp: mean1_def split: sum.splits)
  then have "Inl e \<in> set (map (\<lambda>nc. col_floats (snd nc)) (columns g))"
    by (rule sequence_err_Inl)
  then obtain c where "col_floats c = Inl e" by auto
  then show ?thesis by (cases c) auto
qed

lemma fill_na_KeyError_iff:
  "fill_na_with_mean df = Inl KeyError \<longleftrightarrow> slice_end_missing (map fst (columns df))"
proof
  assume "slice_end_missing (map fst (columns df))"
  then have "loc_cols df ''q1'' ''q5'' = Inl KeyError"
    by (simp add: loc_cols_Inl_iff slice_end_missing_def)
  then show "fill_na_with_mean df = Inl KeyError"
    by (simp add: fill_na_with_mean_def)
next
  assume a: "fill_na_with_mean df = Inl KeyError"
  show "slice_end_missing (map fst (columns df))"
  proof (cases "loc_cols df ''q1'' ''q5''")
    case (Inl e)
    then show ?thesis
      by (simp add: loc_cols_Inl_iff slice_end_missing_def)
  next
    case (Inr g)
    with a show ?thesis
      by (auto simp: fill_na_with_mean_def Let_def np_broadcast_to_def DataFrame_def
            split: sum.splits if_splits dest: mean1_Inl)
  qed
qed

lemma score_KeyError_iff:
  "score_subjects df m = Inl KeyError \<longleftrightarrow> slice_end_missing (map fst (columns df))"
proof
  assume "slice_end_missing (map fst (columns df))"
  then have "loc_cols df ''q1'' ''q5'' = Inl KeyError"
    by (simp add: loc_cols_Inl_iff slice_end_missing_def)
  then show "score_subjects df m = Inl KeyError"
    by (simp add: score_subjects_def score_column_def)
next
  assume a: "score_subjects df m = Inl KeyError"
  show "slice_end_missing (map fst (columns df))"
  proof (cases "loc_cols df ''q1'' ''q5''")
    case (Inl e)
    then show ?thesis
      by (simp add: loc_cols_Inl_iff slice_end_missing_def)
  next
    case (Inr g)
    with a show ?thesis
      by (auto simp: score_subjects_def score_column_def Let_def astype_UInt8_def
            split: sum.splits if_splits dest: mean1_Inl)
  qed
qed

lemma show_age_Inl_iff:
  "show_age_distrib df = Inl e \<longleftrightarrow> e = KeyError \<and> ''age'' \<notin> set (map fst (columns df))"
  using getitem_Inl_iff [of df "''age''"]
  by (auto simp: show_age_distrib_def Let_def split: sum.splits)

lemma str_accessor_Inl: "str_accessor c = Inl e \<Longrightarrow> e = AttributeError"
  by (cases c) auto

lemma remove_rows_KeyError_iff:
  "remove_rows_without_mail df = Inl KeyError \<longleftrightarrow> ''email'' \<notin> set (map fst (columns df))"
proof (cases "getitem df ''email''")
  case (Inl e)
  then show ?thesis
    using getitem_Inl_iff [of df "''email''" e] by (simp add: remove_rows_unfold)
next
  case (Inr c)
  then have inn: "''email'' \<in> set (map fst (columns df))"
    using getitem_Inl_iff [of df "''email''" KeyError] by auto
  have "remove_rows_without_mail df \<noteq> Inl KeyError"
    using Inr by (auto simp: remove_rows_unfold split: sum.splits dest: str_accessor_Inl cond3_loop_error)
  with inn show ?thesis by simp
qed

lemma init_cases:
  "init read_json fname h =
     (case read_json (as_path fname) of
        Inl e \<Rightarrow> (Inl e, h)
      | Inr df \<Rightarrow>
          (Inr \<lparr>data_fname = as_path fname, data = next_addr h\<rparr>,
           \<lparr>frames = (frames h)(next_addr h \<mapsto> df), next_addr = Suc (next_addr h)\<rparr>))"
  by (simp add: init_def read_data_def alloc_def split: sum.splits)


text \<open>
  Claim C9, as amended. Construction fails exactly when \<^verbatim>\<open>pd.read_json\<close> raises
  on the path, and with the exception the reader raised: the program defines no exception
  class and wraps nothing. A missing column surfaces as Python's \<^verbatim>\<open>KeyError\<close> at
  the method that looks the label up, and exactly then: \<^verbatim>\<open>show_age_distrib\<close> raises
  it exactly when \<open>age\<close> is no column, \<^verbatim>\<open>remove_rows_without_mail\<close> exactly
  when \<open>email\<close> is no column, and \<^verbatim>\<open>fill_na_with_mean\<close> and
  \<^verbatim>\<open>score_subjects\<close> exactly when an end label of the slice, \<open>q1\<close> or
  \<open>q5\<close>, is no column and the column labels are neither in ascending nor in
  descending order. The absence of \<open>q2\<close>, \<open>q3\<close> or \<open>q4\<close> therefore never
  raises \<^verbatim>\<open>KeyError\<close>.
\<close>

theorem failures_and_their_causes:
  "(fst (init read_json fname h) = Inl e \<longleftrightarrow> read_json (as_path fname) = Inl e)
   \<and> (show_age_distrib df = Inl KeyError \<longleftrightarrow> ''age'' \<notin> set (map fst (columns df)))
   \<and> (remove_rows_without_mail df = Inl KeyError \<longleftrightarrow> ''email'' \<notin> set (map fst (columns df)))
   \<and> (fill_na_with_mean df = Inl KeyError \<longleftrightarrow> slice_end_missing (map fst (columns df)))
   \<and> (score_subjects df m = Inl KeyError \<longleftrightarrow> slice_end_missing (map fst (columns df)))"
proof -
  have "fst (init read_json fname h) = Inl e \<longleftrightarrow> read_json (as_path fname) = Inl e"
    by (auto simp: init_cases split: sum.splits)
  then show ?thesis
    by (simp add: show_age_Inl_iff remove_rows_KeyError_iff fill_na_KeyError_iff score_KeyError_iff)
qed

theorem failures_and_their_causes_witness:
  "fst (init missing_file_reader (PathValue (Path ''nothing.json'')) empty_heap) = Inl FileNotFoundError
   \<and> show_age_distrib (grade_table [Some 1] [Some 2] [Some 3] [Some 4] [Some 5]) = Inl KeyError
   \<and> remove_rows_without_mail (age_table [Some 30]) = Inl KeyError
   \<and> fill_na_with_mean table_without_q5 = Inl KeyError
   \<and> score_subjects table_without_q5 1 = Inl KeyError
   \<and> score_subjects table_without_q3 0 \<noteq> Inl KeyError
   \<and> fill_na_with_mean sample_table \<noteq> Inl KeyError"
proof -
  have a: "missing_file_reader (as_path (PathValue (Path ''nothing.json''))) = Inl FileNotFoundError"
    by (simp add: missing_file_reader_def)
  have b: "''age'' \<notin> set (map fst (columns (grade_table [Some 1] [Some 2] [Some 3] [Some 4] [Some 5])))"
    by (simp add: grade_table_def)
  have c: "''email'' \<notin> set (map fst (columns (age_table [Some 30])))"
    by (simp add: age_table_def)
  have d: "slice_end_missing (map fst (columns table_without_q5))"
    unfolding slice_end_missing_def by code_simp
  have e: "\<not> slice_end_missing (map fst (columns table_without_q3))"
    by (simp add: slice_end_missing_def table_without_q3_def)
  have f: "\<not> slice_end_missing (map fst (columns sample_table))"
    by (simp add: slice_end_missing_def sample_table_def)
  show ?thesis
    using a b c d e f
      failures_and_their_causes [of missing_file_reader "PathValue (Path ''nothing.json'')" empty_heap
        FileNotFoundError "age_table [Some 30]" 1]
      failures_and_their_causes [of missing_file_reader "PathValue (Path ''nothing.json'')" empty_heap
        KeyError "grade_table [Some 1] [Some 2] [Some 3] [Some 4] [Some 5]" 1]
      failures_and_their_causes [of missing_file_reader "PathValue (Path ''nothing.json'')" empty_heap
        KeyError table_without_q5 1]
      failures_and_their_causes [of missing_file_reader "PathValue (Path ''nothing.json'')" empty_heap
        KeyError table_without_q3 0]
      failures_and_their_causes [of missing_file_reader "PathValue (Path ''nothing.json'')" empty_heap
        KeyError sample_table 0]
    by blast
qed

text \<open>Four places where the claim fails as stated. A table without \<open>q3\<close>: both
  methods over the grades return normally. A table without \<open>q1\<close> whose labels are
  in ascending order: the score is computed. A table without \<open>age\<close>: the exception
  is \<^verbatim>\<open>KeyError\<close>. A reader that finds no file: construction surfaces its
  \<^verbatim>\<open>FileNotFoundError\<close>.\<close>

theorem missing_columns_and_library_errors:
  "score_subjects table_without_q3 1 =
     Inr \<lparr>index = [0],
          columns = [(''age'', FloatCol [Some 30]), (''email'', StrCol [''a.b@c.com'']),
                     (''q1'', FloatCol [Some 3]), (''q2'', FloatCol [Some 3]),
                     (''q4'', FloatCol [Some 3]), (''q5'', FloatCol [None]),
                     (''score'', UInt8Col [Some 3])]\<rparr>
   \<and> fill_na_with_mean table_without_q3 =
     Inr (\<lparr>index = [0],
           columns = [(''age'', FloatCol [Some 30]), (''email'', StrCol [''a.b@c.com'']),
                     (''q1'', FloatCol [Some 3]), (''q2'', FloatCol [Some 3]),
                     (''q4'', FloatCol [Some 3]), (''q5'', FloatCol [Some 3])]\<rparr>, [0])
   \<and> score_subjects table_without_q1 1 =
     Inr \<lparr>index = [0],
          columns = [(''age'', FloatCol [Some 30]), (''email'', StrCol [''a.b@c.com'']),
                     (''q2'', FloatCol [Some 3]), (''q3'', FloatCol [Some 3]),
                     (''q4'', FloatCol [Some 3]), (''q5'', FloatCol [None]),
                     (''score'', UInt8Col [Some 3])]\<rparr>
   \<and> show_age_distrib (email_table [''a.b@c.com'']) = Inl KeyError
   \<and> fst (init missing_file_reader (StrValue ''nothing.json'') empty_heap) = Inl FileNotFoundError"
  by code_simp

end
